theory Spec2Isabelle
  imports Complex_Main "HOL-Library.AList" "HOL-Library.Sublist"
begin

section \<open>Python string primitives used by the prompt parser\<close>

text \<open>
  Strings are lists of characters; a character stands for a code point below 256.
  \<open>str.strip()\<close> without arguments removes the characters for which
  \<open>str.isspace\<close> holds: code points 9--13, 28--32, 133 and 160 in that range.
\<close>

definition is_space :: "char \<Rightarrow> bool" where
  "is_space c =
     (let n = (of_char c :: nat)
      in (9 \<le> n \<and> n \<le> 13) \<or> (28 \<le> n \<and> n \<le> 32) \<or> n = 133 \<or> n = 160)"

definition strip :: "string \<Rightarrow> string" where
  "strip s = rev (dropWhile is_space (rev (dropWhile is_space s)))"

text \<open>
  \<open>s.split(sep)\<close> for a non-empty separator: the pieces between the non-overlapping
  occurrences of \<open>sep\<close>, found from left to right. The accumulator holds the
  current piece, reversed. (Python raises \<open>ValueError\<close> for an empty separator; the
  program only splits at \<open>'---'\<close>, at a newline and at a colon.)
\<close>

function split_acc :: "string \<Rightarrow> string \<Rightarrow> string \<Rightarrow> string list" where
  "split_acc sep acc [] = [rev acc]"
| "split_acc sep acc (c # cs) =
     (if sep \<noteq> [] \<and> prefix sep (c # cs)
      then rev acc # split_acc sep [] (drop (length sep) (c # cs))
      else split_acc sep (c # acc) cs)"
  by pat_completeness auto
termination
  by (relation "measure (\<lambda>(sep, acc, s). length s)") (auto simp: neq_Nil_conv)

definition split :: "string \<Rightarrow> string \<Rightarrow> string list" where
  "split s sep = split_acc sep [] s"

text \<open>
  \<open>line.split(':', 1)\<close> on a line that contains a colon: the text before the first
  colon and the text after it.
\<close>

definition split_colon :: "string \<Rightarrow> string \<times> string" where
  "split_colon line =
     (takeWhile (\<lambda>c. c \<noteq> CHR '':'') line, drop 1 (dropWhile (\<lambda>c. c \<noteq> CHR '':'') line))"

section \<open>PromptFileParser\<close>

text \<open>
  A Python \<open>dict\<close> keeps its keys in insertion order and an assignment to an existing key
  keeps the key's place: an association list with \<open>AList.update\<close>.
  \<open>data[k] += s\<close> on a present key is \<open>AList.map_entry\<close>.
\<close>

type_synonym prompt_record = "(string \<times> string) list"

text \<open>
  \<^verbatim>\<open>
  def load_prompts(file_path):
      with open(file_path, 'r') as f:
          content = f.read()
      return [block.strip() for block in content.split('---') if block.strip()]
  \<close>
  The function is modelled from the content that was read.
\<close>

definition load_prompts :: "string \<Rightarrow> string list" where
  "load_prompts content =
     map strip (filter (\<lambda>block. strip block \<noteq> []) (split content ''---''))"

text \<open>
  \<^verbatim>\<open>
  def parse_prompt_block(block):
      lines = block.strip().split('\n')
      data = {}
      current_key = None
      for line in lines:
          if ':' in line:
              key, value = line.split(':', 1)
              current_key = key.strip()
              data[current_key] = value.strip()
          else:
              if current_key:
                  data[current_key] += ' ' + line.strip()
      return data
  \<close>
  The loop body is \<open>parse_line\<close>, on the pair of \<open>data\<close> and \<open>current_key\<close>.
  The test \<open>if current_key:\<close> fails for \<open>None\<close> and for the empty string.
\<close>

definition parse_line ::
  "prompt_record \<times> string option \<Rightarrow> string \<Rightarrow> prompt_record \<times> string option" where
  "parse_line st line =
     (case st of (data, current_key) \<Rightarrow>
        if CHR '':'' \<in> set line
        then (case split_colon line of (key, val) \<Rightarrow>
                (AList.update (strip key) (strip val) data, Some (strip key)))
        else (case current_key of
                None \<Rightarrow> (data, current_key)
              | Some k \<Rightarrow>
                  if k \<noteq> []
                  then (AList.map_entry k (\<lambda>v. v @ '' '' @ strip line) data, current_key)
                  else (data, current_key)))"

definition parse_prompt_block :: "string \<Rightarrow> prompt_record" where
  "parse_prompt_block block =
     fst (foldl parse_line ([], None) (split (strip block) [CHR 0x0A]))"

text \<open>
  \<open>create_prompts\<close> reads \<open>characters.txt\<close> or \<open>scenes.txt\<close> and parses every block;
  it is modelled from the content of the file.
\<close>

definition create_prompts :: "string \<Rightarrow> prompt_record list" where
  "create_prompts content = map parse_prompt_block (load_prompts content)"

section \<open>The parser as the specification words it\<close>

text \<open>
  The specification describes a block as a sequence of fields: every line with a colon
  starts a field, and the colon-free lines that follow it, up to the next line with a
  colon, continue its value, each joined by a single space. \<open>spec_fields cont\<close> lists
  the fields of a block in order; \<open>cont\<close> is what is done to a continuation line
  before it is appended (\<open>id\<close>: the line as it stands, \<open>strip\<close>: the trimmed line).
  \<open>spec_record\<close> enters the fields into a record, a later field replacing an earlier
  one of the same label.
\<close>

definition continuation :: "(string \<Rightarrow> string) \<Rightarrow> string list \<Rightarrow> string" where
  "continuation cont ls =
     concat (map (\<lambda>l. '' '' @ cont l) (takeWhile (\<lambda>l. CHR '':'' \<notin> set l) ls))"

fun spec_fields :: "(string \<Rightarrow> string) \<Rightarrow> string list \<Rightarrow> (string \<times> string) list" where
  "spec_fields cont [] = []"
| "spec_fields cont (l # ls) =
     (if CHR '':'' \<in> set l
      then (strip (fst (split_colon l)), strip (snd (split_colon l)) @ continuation cont ls)
             # spec_fields cont ls
      else spec_fields cont ls)"

definition spec_record :: "(string \<times> string) list \<Rightarrow> prompt_record" where
  "spec_record fs = foldl (\<lambda>data (k, v). AList.update k v data) [] fs"

text \<open>
  The specification splits the text into blocks at the lines that consist solely of
  \<open>---\<close>. \<open>join_lines\<close> is the text of a list of lines, \<open>spec_blocks\<close> the groups of
  lines between the separator lines, and \<open>has_substring\<close> tells whether a line
  contains the separator anywhere.
\<close>

fun join_lines :: "string list \<Rightarrow> string" where
  "join_lines [] = []"
| "join_lines [l] = l"
| "join_lines (l # ls) = l @ [CHR 0x0A] @ join_lines ls"

fun spec_blocks :: "string list \<Rightarrow> string list list" where
  "spec_blocks [] = [[]]"
| "spec_blocks (l # ls) =
     (if l = ''---'' then [] # spec_blocks ls
      else (l # hd (spec_blocks ls)) # tl (spec_blocks ls))"

fun has_substring :: "string \<Rightarrow> string \<Rightarrow> bool" where
  "has_substring sep [] = (sep = [])"
| "has_substring sep (c # cs) = (prefix sep (c # cs) \<or> has_substring sep cs)"

definition well_formed_lines :: "string list \<Rightarrow> bool" where
  "well_formed_lines ls =
     list_all (\<lambda>l. CHR 0x0A \<notin> set l \<and> (has_substring ''---'' l \<longrightarrow> l = ''---'')) ls"

text \<open>
  The pieces that splitting the text of well-formed lines at \<open>---\<close> yields, given the
  text \<open>p\<close> already read for the current piece.
\<close>

fun split_pieces :: "string \<Rightarrow> string list \<Rightarrow> string list" where
  "split_pieces p [] = [p]"
| "split_pieces p [l] = (if l = ''---'' then [p, []] else [p @ l])"
| "split_pieces p (l # ls) =
     (if l = ''---'' then p # split_pieces [CHR 0x0A] ls
      else split_pieces (p @ l @ [CHR 0x0A]) ls)"

definition nonblank_block :: "string list \<Rightarrow> bool" where
  "nonblank_block g = (strip (join_lines g) \<noteq> [])"

text \<open>
  A block is \<open>labelled\<close> when every line with a colon has a label that is not blank.
\<close>

definition labelled :: "string list \<Rightarrow> bool" where
  "labelled ls =
     list_all (\<lambda>l. CHR '':'' \<in> set l \<longrightarrow> strip (fst (split_colon l)) \<noteq> []) ls"

section \<open>Values, paths and the world the batch runs in\<close>

text \<open>
  The fields of a descriptor \<open>prompt.json\<close> are JSON scalars: the strings of the parsed
  record, the integers written by the program, and whatever scalar a user writes
  by hand. Arrays and objects as field values are outside the model, and so are the
  non-finite floats.
\<close>

datatype json = JNull | JBool bool | JInt int | JFloat rat | JStr string

type_synonym descriptor = "(string \<times> json) list"

datatype exn =
    FileNotFoundError string
  | IsADirectoryError string
  | JSONDecodeError
  | AttributeError
  | TypeError
  | ValueError
  | KeyError string
  | BinasciiError

text \<open>
  \<open>str(n)\<close> of an integer, as the f-strings of the program format it.
\<close>

definition digit_char :: "nat \<Rightarrow> char" where
  "digit_char d = char_of (48 + d)"

function str_nat :: "nat \<Rightarrow> string" where
  "str_nat n = (if n < 10 then [digit_char n] else str_nat (n div 10) @ [digit_char (n mod 10)])"
  by pat_completeness auto
termination
  by (relation "measure id") auto

declare str_nat.simps [simp del]

definition str_int :: "int \<Rightarrow> string" where
  "str_int i = (if i < 0 then CHR ''-'' # str_nat (nat (- i)) else str_nat (nat i))"

text \<open>
  \<open>int(x)\<close> on a JSON scalar. On a string Python accepts surrounding whitespace, a
  sign, and decimal digits with single underscores between them.
\<close>

definition is_digit :: "char \<Rightarrow> bool" where
  "is_digit c = (48 \<le> (of_char c :: nat) \<and> (of_char c :: nat) \<le> 57)"

fun digits_ok :: "string \<Rightarrow> bool" where
  "digits_ok [] = False"
| "digits_ok [c] = is_digit c"
| "digits_ok (c # d # cs) =
     (if is_digit c then digits_ok (if d = CHR ''_'' then cs else d # cs) else False)"

definition digits_value :: "string \<Rightarrow> nat" where
  "digits_value s =
     foldl (\<lambda>a c. 10 * a + ((of_char c :: nat) - 48)) 0 (filter (\<lambda>c. c \<noteq> CHR ''_'') s)"

definition int_of_str :: "string \<Rightarrow> exn + int" where
  "int_of_str s =
     (let t = strip s;
          neg = (t \<noteq> [] \<and> hd t = CHR ''-'');
          body = (if t \<noteq> [] \<and> (hd t = CHR ''-'' \<or> hd t = CHR ''+'') then tl t else t)
      in if digits_ok body
         then Inr (if neg then - int (digits_value body) else int (digits_value body))
         else Inl ValueError)"

fun py_int :: "json \<Rightarrow> exn + int" where
  "py_int JNull = Inl TypeError"
| "py_int (JBool b) = Inr (if b then 1 else 0)"
| "py_int (JInt i) = Inr i"
| "py_int (JFloat q) = Inr (if 0 \<le> q then \<lfloor>q\<rfloor> else \<lceil>q\<rceil>)"
| "py_int (JStr s) = int_of_str s"

text \<open>\<open>data.get(key, default)\<close>.\<close>

definition dict_get :: "('k \<times> 'v) list \<Rightarrow> 'k \<Rightarrow> 'v \<Rightarrow> 'v" where
  "dict_get data key dflt = (case map_of data key of None \<Rightarrow> dflt | Some v \<Rightarrow> v)"

text \<open>\<open>os.path.join\<close> of two POSIX paths, and \<open>os.path.splitext(p)[0]\<close>.\<close>

definition path_join :: "string \<Rightarrow> string \<Rightarrow> string" where
  "path_join a b =
     (if b \<noteq> [] \<and> hd b = CHR ''/'' then b
      else if a = [] \<or> last a = CHR ''/'' then a @ b
      else a @ ''/'' @ b)"

definition splitext_root :: "string \<Rightarrow> string" where
  "splitext_root p =
     (let base = rev (takeWhile (\<lambda>c. c \<noteq> CHR ''/'') (rev p));
          dir = take (length p - length base) p;
          dots = takeWhile (\<lambda>c. c = CHR ''.'') base;
          name = dropWhile (\<lambda>c. c = CHR ''.'') base
      in if CHR ''.'' \<in> set name
         then dir @ dots @ rev (drop 1 (dropWhile (\<lambda>c. c \<noteq> CHR ''.'') (rev name)))
         else p)"

text \<open>
  The settings of a run (\<open>settings.json\<close>), resolved before the batch starts. The two
  floats are kept as the text Python prints for them.
\<close>

record settings =
  model :: string
  lora :: string
  lora_weight :: string
  sampling_method :: string
  scheduler :: string
  sampling_steps :: int
  width :: int
  height :: int
  cfg_scale :: string
  seed :: int
  api_endpoint :: string

record payload =
  p_prompt :: json
  p_negative_prompt :: json
  p_steps :: int
  p_cfg_scale :: string
  p_width :: int
  p_height :: int
  p_sampler_name :: string
  p_seed :: int
  p_batch_size :: int
  p_n_iter :: int
  p_scheduler :: string
  p_sd_model_checkpoint :: string

text \<open>
  What the generation endpoint answers to one POST, as the \<open>try\<close> block sees it:
  \<open>requests.post\<close>, \<open>raise_for_status\<close> or \<open>response.json()\<close> raises a
  \<open>RequestException\<close> (a network error, an error status, a body that is not JSON), or
  the body is a JSON object. Of the object the model keeps the entry \<open>images\<close>
  (\<open>None\<close> when the key is missing) and the text of the body. An image payload is
  either the base64 text of some bytes or text that \<open>base64.b64decode\<close> rejects.
\<close>

datatype image_data = Base64 string | Malformed string

datatype http_result =
    RequestException string
  | Response "image_data list option" string

datatype log_entry =
    InfoGenerating string int
  | InfoPayload payload
  | InfoResponse string
  | ErrorGenerating string int string

datatype key = Space | F8 | OtherKey

datatype event =
    MkDir string
  | WriteFile string
  | Poll bool
  | Sleep nat
  | Log log_entry
  | Post string payload
  | ListenerStart
  | ListenerStop

text \<open>
  A file holds a JSON object, some other JSON value, text (which \<open>json.load\<close> rejects)
  or the bytes of an image.
\<close>

datatype file_content =
    JsonObject descriptor
  | JsonOther
  | Text string
  | Bytes string

text \<open>
  The state the program changes: the files and directories it made, the global
  \<open>paused\<close>, whether the global \<open>keyboard_listener\<close> holds a running listener, the
  number of times the loop has read \<open>paused\<close>, the number of requests sent, and the
  trace of what it did, oldest
  first. \<open>dirs\<close> holds the paths given to \<open>os.makedirs\<close>.
\<close>

record world =
  files :: "string \<rightharpoonup> file_content"
  dirs :: "string set"
  paused :: bool
  keyboard_listener :: bool
  polls :: nat
  requests :: nat
  trace :: "event list"

text \<open>
  What the program reads from outside: the directory listings, the prompt files, the
  answers of the generation service (to the \<open>n\<close>-th request of the run), and the keys
  the listener thread receives before the loop reads \<open>paused\<close> for the \<open>k\<close>-th time.
\<close>

record env =
  listdir :: "string \<Rightarrow> string list option"
  read_text :: "string \<Rightarrow> string option"
  post :: "nat \<Rightarrow> payload \<Rightarrow> http_result"
  key_events :: "nat \<Rightarrow> key list"
  hand_edit :: "(string \<rightharpoonup> file_content) \<Rightarrow> (string \<rightharpoonup> file_content)"

datatype result = Done world | Raised exn world

definition world_of :: "result \<Rightarrow> world" where
  "world_of r = (case r of Done w \<Rightarrow> w | Raised e w \<Rightarrow> w)"

definition emit :: "event \<Rightarrow> world \<Rightarrow> world" where
  "emit e w = w\<lparr>trace := trace w @ [e]\<rparr>"

definition makedirs :: "string \<Rightarrow> world \<Rightarrow> world" where
  "makedirs d w = emit (MkDir d) (w\<lparr>dirs := insert d (dirs w)\<rparr>)"

definition write_file :: "string \<Rightarrow> file_content \<Rightarrow> world \<Rightarrow> world" where
  "write_file p c w = emit (WriteFile p) (w\<lparr>files := (files w)(p \<mapsto> c)\<rparr>)"

definition path_exists :: "world \<Rightarrow> string \<Rightarrow> bool" where
  "path_exists w p = (p \<in> dom (files w) \<or> p \<in> dirs w)"

text \<open>\<open>json.load(open(p))\<close> followed by the first \<open>data.get\<close>.\<close>

definition load_descriptor :: "world \<Rightarrow> string \<Rightarrow> exn + descriptor" where
  "load_descriptor w p =
     (case files w p of
        None \<Rightarrow> if p \<in> dirs w then Inl (IsADirectoryError p) else Inl (FileNotFoundError p)
      | Some (JsonObject d) \<Rightarrow> Inr d
      | Some JsonOther \<Rightarrow> Inl AttributeError
      | Some (Text t) \<Rightarrow> Inl JSONDecodeError
      | Some (Bytes b) \<Rightarrow> Inl JSONDecodeError)"

section \<open>ItemStore: materializing the descriptors\<close>

datatype prompt_type = Character | Scene

definition type_dir :: "prompt_type \<Rightarrow> string" where
  "type_dir prompt_type = (if prompt_type = Character then ''Characters'' else ''Scenes'')"

definition item_name_of :: "prompt_record \<Rightarrow> string" where
  "item_name_of data =
     map (\<lambda>c. if c = CHR '' '' then CHR ''_'' else c) (dict_get data ''Name'' ''Unnamed'')"

text \<open>
  \<^verbatim>\<open>
  data_without_name = {k: v for k, v in data.items() if k != 'Name'}
  data_without_name['Number of Images'] = 1
  data_without_name['Number of Iterations'] = 1
  data_without_name['Seed'] = default_seed
  \<close>
  In \<open>v1.0/main.py\<close> the first two values are the arguments \<open>num_images\<close> and
  \<open>num_iterations\<close> of the function.
\<close>

definition descriptor_of :: "prompt_record \<Rightarrow> int \<Rightarrow> int \<Rightarrow> int \<Rightarrow> descriptor" where
  "descriptor_of data num_images num_iterations default_seed =
     AList.update ''Seed'' (JInt default_seed)
       (AList.update ''Number of Iterations'' (JInt num_iterations)
         (AList.update ''Number of Images'' (JInt num_images)
           (map (\<lambda>(k, v). (k, JStr v)) (filter (\<lambda>(k, v). k \<noteq> ''Name'') data))))"

text \<open>The body of the loop of \<open>generate_json_files\<close>, on \<open>json_files\<close> and the world.\<close>

definition materialize ::
  "string \<Rightarrow> int \<Rightarrow> int \<Rightarrow> int \<Rightarrow> string list \<times> world \<Rightarrow> prompt_record \<Rightarrow> string list \<times> world" where
  "materialize base_dir num_images num_iterations default_seed st data =
     (case st of (json_files, w) \<Rightarrow>
        let item_name = item_name_of data;
            item_dir = path_join base_dir item_name;
            w1 = makedirs item_dir w;
            prompt_path = path_join item_dir ''prompt.json'';
            w2 = write_file prompt_path
                   (JsonObject (descriptor_of data num_images num_iterations default_seed)) w1
        in (json_files @ [prompt_path], w2))"

definition generate_json_files ::
  "prompt_record list \<Rightarrow> prompt_type \<Rightarrow> string \<Rightarrow> int \<Rightarrow> world \<Rightarrow> string list \<times> world" where
  "generate_json_files prompts prompt_type story_name default_seed w =
     (let base_dir = path_join story_name (type_dir prompt_type)
      in foldl (materialize base_dir 1 1 default_seed) ([], makedirs base_dir w) prompts)"

definition generate_json_files_v1 ::
  "prompt_record list \<Rightarrow> prompt_type \<Rightarrow> string \<Rightarrow> int \<Rightarrow> int \<Rightarrow> int \<Rightarrow> string \<Rightarrow> world
     \<Rightarrow> string list \<times> world" where
  "generate_json_files_v1 prompts prompt_type story_name default_seed num_images num_iterations
       output_dir w =
     (let base_dir = path_join (path_join output_dir story_name) (type_dir prompt_type)
      in foldl (materialize base_dir num_images num_iterations default_seed)
           ([], makedirs base_dir w) prompts)"

section \<open>PauseController\<close>

text \<open>
  \<open>on_press\<close> of \<open>main.py\<close> flips \<open>paused\<close> on the space key, that of \<open>v1.0/main.py\<close>
  on F8.
\<close>

definition on_press :: "key \<Rightarrow> bool \<Rightarrow> bool" where
  "on_press k p = (if k = Space then \<not> p else p)"

definition on_press_v1 :: "key \<Rightarrow> bool \<Rightarrow> bool" where
  "on_press_v1 k p = (if k = F8 then \<not> p else p)"

definition start_keyboard_listener :: "world \<Rightarrow> world" where
  "start_keyboard_listener w = emit ListenerStart (w\<lparr>keyboard_listener := True\<rparr>)"

definition stop_keyboard_listener :: "world \<Rightarrow> world" where
  "stop_keyboard_listener w =
     (if keyboard_listener w then emit ListenerStop (w\<lparr>keyboard_listener := False\<rparr>) else w)"

text \<open>
  One read of \<open>paused\<close> by the loop. The listener thread, when it runs, has handled
  the keys that arrived since the last read.
\<close>

definition read_paused :: "(key \<Rightarrow> bool \<Rightarrow> bool) \<Rightarrow> env \<Rightarrow> world \<Rightarrow> world" where
  "read_paused handler env w =
     (let p = (if keyboard_listener w
               then foldl (\<lambda>p k. handler k p) (paused w) (key_events env (polls w))
               else paused w)
      in emit (Poll p) (w\<lparr>paused := p, polls := Suc (polls w)\<rparr>))"

text \<open>
  \<^verbatim>\<open>
  while paused:
      time.sleep(0.5)
  \<close>
  The loop may run forever: \<open>None\<close> is the run that never leaves it. The sleep is
  recorded in milliseconds.
\<close>

partial_function (option) wait_while_paused ::
  "(key \<Rightarrow> bool \<Rightarrow> bool) \<Rightarrow> env \<Rightarrow> world \<Rightarrow> world option" where
  "wait_while_paused handler env w =
     (if paused (read_paused handler env w)
      then wait_while_paused handler env (emit (Sleep 500) (read_paused handler env w))
      else Some (read_paused handler env w))"

declare wait_while_paused.simps [code]

section \<open>GenerationClient and the batch loop\<close>

text \<open>A \<open>for\<close> loop whose body may raise or never return.\<close>

fun for_each :: "('a \<Rightarrow> world \<Rightarrow> result option) \<Rightarrow> 'a list \<Rightarrow> world \<Rightarrow> result option" where
  "for_each body [] w = Some (Done w)"
| "for_each body (x # xs) w =
     (case body x w of
        None \<Rightarrow> None
      | Some (Raised e w') \<Rightarrow> Some (Raised e w')
      | Some (Done w') \<Rightarrow> for_each body xs w')"

definition then_do :: "result option \<Rightarrow> (world \<Rightarrow> result option) \<Rightarrow> result option" where
  "then_do r f =
     (case r of
        None \<Rightarrow> None
      | Some (Raised e w) \<Rightarrow> Some (Raised e w)
      | Some (Done w) \<Rightarrow> f w)"

text \<open>
  \<^verbatim>\<open>
  if settings['lora']:
      lora_name = os.path.splitext(settings['lora'])[0]
      positive_prompt += f" <lora:{lora_name}:{settings['lora_weight']}>"
  \<close>
\<close>

definition lora_prompt :: "settings \<Rightarrow> json \<Rightarrow> exn + json" where
  "lora_prompt st positive_prompt =
     (if lora st \<noteq> []
      then (case positive_prompt of
              JStr s \<Rightarrow>
                Inr (JStr (s @ '' <lora:'' @ splitext_root (lora st) @ '':'' @ lora_weight st @ ''>''))
            | _ \<Rightarrow> Inl TypeError)
      else Inr positive_prompt)"

definition build_payload :: "settings \<Rightarrow> json \<Rightarrow> json \<Rightarrow> int \<Rightarrow> int \<Rightarrow> payload" where
  "build_payload st positive_prompt negative_prompt sd num_images =
     \<lparr> p_prompt = positive_prompt,
       p_negative_prompt = negative_prompt,
       p_steps = sampling_steps st,
       p_cfg_scale = cfg_scale st,
       p_width = width st,
       p_height = height st,
       p_sampler_name = sampling_method st,
       p_seed = sd,
       p_batch_size = 1,
       p_n_iter = num_images,
       p_scheduler = scheduler st,
       p_sd_model_checkpoint = model st \<rparr>"

definition http_post :: "env \<Rightarrow> string \<Rightarrow> payload \<Rightarrow> world \<Rightarrow> http_result \<times> world" where
  "http_post env url pl w =
     (post env (requests w) pl, emit (Post url pl) (w\<lparr>requests := Suc (requests w)\<rparr>))"

text \<open>
  \<^verbatim>\<open>
  for idx, img_data in enumerate(tqdm(r['images'], ...)):
      img_bytes = base64.b64decode(img_data)
      img_path = os.path.join(iteration_dir, f'{item_name}_{iteration}_{idx + 1}.png')
      with open(img_path, 'wb') as img_file:
          img_file.write(img_bytes)
  \<close>
  \<open>binascii.Error\<close> is not a \<open>RequestException\<close>: it leaves the \<open>try\<close> block.
\<close>

fun save_images :: "string \<Rightarrow> string \<Rightarrow> int \<Rightarrow> nat \<Rightarrow> image_data list \<Rightarrow> world \<Rightarrow> result" where
  "save_images iteration_dir item_name iteration idx [] w = Done w"
| "save_images iteration_dir item_name iteration idx (img_data # imgs) w =
     (case img_data of
        Malformed t \<Rightarrow> Raised BinasciiError w
      | Base64 img_bytes \<Rightarrow>
          save_images iteration_dir item_name iteration (Suc idx) imgs
            (write_file
               (path_join iteration_dir
                  (item_name @ ''_'' @ str_int iteration @ ''_'' @ str_nat (idx + 1) @ ''.png''))
               (Bytes img_bytes) w))"

text \<open>
  The body of the loop over the iterations (lines 187--246 of \<open>main.py\<close>, the same in
  \<open>v1.0/main.py\<close>), in three parts. \<open>handle_response\<close> is what follows the POST:
  after a \<open>RequestException\<close> the handler logs the error and \<open>continue\<close>s, so the
  wait at the end of the body is not reached; otherwise the response is logged, the
  images are saved and the loop waits while paused. \<open>send_request\<close> logs the
  payload and sends it. \<open>iteration_body\<close> makes the directory of the iteration,
  builds the prompts, waits while paused and sends the request.
\<close>

definition handle_response ::
  "(key \<Rightarrow> bool \<Rightarrow> bool) \<Rightarrow> env \<Rightarrow> string \<Rightarrow> string \<Rightarrow> int \<Rightarrow> http_result \<Rightarrow> world
     \<Rightarrow> result option" where
  "handle_response handler env iteration_dir item_name iteration response w =
     (case response of
        RequestException e \<Rightarrow>
          Some (Done (emit (Log (ErrorGenerating item_name iteration e)) w))
      | Response images text \<Rightarrow>
          let w1 = emit (Log (InfoResponse text)) w
          in (case images of
                None \<Rightarrow> Some (Raised (KeyError ''images'') w1)
              | Some imgs \<Rightarrow>
                  (case save_images iteration_dir item_name iteration 0 imgs w1 of
                     Raised e w2 \<Rightarrow> Some (Raised e w2)
                   | Done w2 \<Rightarrow> map_option Done (wait_while_paused handler env w2))))"

definition send_request ::
  "(key \<Rightarrow> bool \<Rightarrow> bool) \<Rightarrow> env \<Rightarrow> settings \<Rightarrow> string \<Rightarrow> string \<Rightarrow> int \<Rightarrow> payload \<Rightarrow> world
     \<Rightarrow> result option" where
  "send_request handler env st iteration_dir item_name iteration pl w =
     (let w1 = emit (Log (InfoPayload pl)) (emit (Log (InfoGenerating item_name iteration)) w);
          sent = http_post env (api_endpoint st @ ''/sdapi/v1/txt2img'') pl w1
      in handle_response handler env iteration_dir item_name iteration (fst sent) (snd sent))"

definition iteration_body ::
  "(key \<Rightarrow> bool \<Rightarrow> bool) \<Rightarrow> env \<Rightarrow> settings \<Rightarrow> string \<Rightarrow> string \<Rightarrow> descriptor \<Rightarrow> int \<Rightarrow> int
     \<Rightarrow> int \<Rightarrow> world \<Rightarrow> result option" where
  "iteration_body handler env st item_dir item_name data num_images sd iteration w =
     (let iteration_dir = path_join item_dir (''Iteration_'' @ str_int iteration);
          w1 = makedirs iteration_dir w;
          positive_prompt = dict_get data ''Positive prompt'' (JStr []);
          negative_prompt = dict_get data ''Negative prompt'' (JStr [])
      in case lora_prompt st positive_prompt of
           Inl e \<Rightarrow> Some (Raised e w1)
         | Inr prompt \<Rightarrow>
             (case wait_while_paused handler env w1 of
                None \<Rightarrow> None
              | Some w2 \<Rightarrow>
                  send_request handler env st iteration_dir item_name iteration
                    (build_payload st prompt negative_prompt sd num_images) w2))"

text \<open>
  The body of the loop over the items in \<open>main.py\<close>: the descriptor is opened and
  loaded without a guard, and the three control values are read from it.
\<close>

definition generate_item :: "env \<Rightarrow> settings \<Rightarrow> string \<Rightarrow> string \<Rightarrow> world \<Rightarrow> result option" where
  "generate_item env st base_dir item_name w =
     (let item_dir = path_join base_dir item_name;
          prompt_path = path_join item_dir ''prompt.json''
      in case load_descriptor w prompt_path of
           Inl e \<Rightarrow> Some (Raised e w)
         | Inr data \<Rightarrow>
             (case py_int (dict_get data ''Number of Images'' (JInt 1)) of
                Inl e \<Rightarrow> Some (Raised e w)
              | Inr num_images \<Rightarrow>
                  (case py_int (dict_get data ''Number of Iterations'' (JInt 1)) of
                     Inl e \<Rightarrow> Some (Raised e w)
                   | Inr num_iterations \<Rightarrow>
                       (case py_int (dict_get data ''Seed'' (JInt (seed st))) of
                          Inl e \<Rightarrow> Some (Raised e w)
                        | Inr sd \<Rightarrow>
                            for_each
                              (iteration_body on_press env st item_dir item_name data num_images sd)
                              [1..num_iterations] w))))"

definition generate_images ::
  "env \<Rightarrow> settings \<Rightarrow> prompt_type \<Rightarrow> string \<Rightarrow> world \<Rightarrow> result option" where
  "generate_images env st prompt_type story_name w =
     (let base_dir = path_join story_name (type_dir prompt_type)
      in case listdir env base_dir of
           None \<Rightarrow> Some (Raised (FileNotFoundError base_dir) w)
         | Some items \<Rightarrow> for_each (generate_item env st base_dir) items w)"

text \<open>
  In \<open>v1.0/main.py\<close> an item without \<open>prompt.json\<close> is skipped, a missing base
  directory ends the function, and the numbers of images and iterations are the
  arguments of the function; only the seed is read from the descriptor.
\<close>

definition generate_item_v1 ::
  "env \<Rightarrow> settings \<Rightarrow> int \<Rightarrow> int \<Rightarrow> string \<Rightarrow> string \<Rightarrow> world \<Rightarrow> result option" where
  "generate_item_v1 env st num_images num_iterations base_dir item_name w =
     (let item_dir = path_join base_dir item_name;
          prompt_path = path_join item_dir ''prompt.json''
      in if \<not> path_exists w prompt_path then Some (Done w)
         else (case load_descriptor w prompt_path of
                 Inl e \<Rightarrow> Some (Raised e w)
               | Inr data \<Rightarrow>
                   (case py_int (dict_get data ''Seed'' (JInt (seed st))) of
                      Inl e \<Rightarrow> Some (Raised e w)
                    | Inr sd \<Rightarrow>
                        for_each
                          (iteration_body on_press_v1 env st item_dir item_name data
                             num_images sd)
                          [1..num_iterations] w)))"

definition generate_images_v1 ::
  "env \<Rightarrow> settings \<Rightarrow> prompt_type \<Rightarrow> string \<Rightarrow> int \<Rightarrow> int \<Rightarrow> string \<Rightarrow> world \<Rightarrow> result option" where
  "generate_images_v1 env st prompt_type story_name num_images num_iterations output_dir w =
     (let base_dir = path_join (path_join output_dir story_name) (type_dir prompt_type)
      in case listdir env base_dir of
           None \<Rightarrow> Some (Done w)
         | Some items \<Rightarrow>
             for_each (generate_item_v1 env st num_images num_iterations base_dir) items w)"

section \<open>BatchOrchestrator\<close>

text \<open>
  \<open>main\<close> of \<open>main.py\<close> from the point where the settings are resolved (lines
  355--384): the prompts are processed, the user may edit the descriptors while the
  program waits for Enter, the listener is started, the characters and the scenes are
  generated, and the listener is stopped. There is no \<open>try\<close> around the generation.
\<close>

definition main :: "env \<Rightarrow> settings \<Rightarrow> string \<Rightarrow> world \<Rightarrow> result option" where
  "main env st story_name w =
     (case read_text env ''characters.txt'' of
        None \<Rightarrow> Some (Raised (FileNotFoundError ''characters.txt'') w)
      | Some characters \<Rightarrow>
          let w1 = snd (generate_json_files (create_prompts characters) Character story_name
                          (seed st) w)
          in (case read_text env ''scenes.txt'' of
                None \<Rightarrow> Some (Raised (FileNotFoundError ''scenes.txt'') w1)
              | Some scenes \<Rightarrow>
                  let w2 = snd (generate_json_files (create_prompts scenes) Scene story_name
                                  (seed st) w1);
                      w3 = w2\<lparr>files := hand_edit env (files w2)\<rparr>;
                      w4 = start_keyboard_listener w3
                  in then_do (generate_images env st Character story_name w4) (\<lambda>w5.
                     then_do (generate_images env st Scene story_name w5) (\<lambda>w6.
                     Some (Done (stop_keyboard_listener w6))))))"

text \<open>
  \<open>main\<close> of \<open>v1.0/main.py\<close>, the loop over the selected folders (lines 380--413). A
  missing prompt file yields no prompts; the listener is started and stopped for
  every folder.
\<close>

definition create_prompts_v1 :: "env \<Rightarrow> string \<Rightarrow> prompt_record list" where
  "create_prompts_v1 env prompts_file =
     (case read_text env prompts_file of None \<Rightarrow> [] | Some content \<Rightarrow> create_prompts content)"

definition process_folder_v1 ::
  "env \<Rightarrow> settings \<Rightarrow> int \<Rightarrow> int \<Rightarrow> string \<Rightarrow> string \<Rightarrow> string \<Rightarrow> world \<Rightarrow> result option" where
  "process_folder_v1 env st num_images num_iterations input_dir output_dir story_name w =
     (let folder_path = path_join input_dir story_name;
          w1 = snd (generate_json_files_v1
                      (create_prompts_v1 env (path_join folder_path ''characters.txt''))
                      Character story_name (seed st) num_images num_iterations output_dir w);
          w2 = snd (generate_json_files_v1
                      (create_prompts_v1 env (path_join folder_path ''scenes.txt''))
                      Scene story_name (seed st) num_images num_iterations output_dir w1);
          w3 = start_keyboard_listener w2
      in then_do (generate_images_v1 env st Character story_name num_images num_iterations
                    output_dir w3) (\<lambda>w4.
         then_do (generate_images_v1 env st Scene story_name num_images num_iterations
                    output_dir w4) (\<lambda>w5.
         Some (Done (stop_keyboard_listener w5)))))"

definition main_v1 ::
  "env \<Rightarrow> settings \<Rightarrow> int \<Rightarrow> int \<Rightarrow> string \<Rightarrow> string \<Rightarrow> string list \<Rightarrow> world \<Rightarrow> result option" where
  "main_v1 env st num_images num_iterations input_dir output_dir selected_folders w =
     for_each (process_folder_v1 env st num_images num_iterations input_dir output_dir)
       selected_folders w"

section \<open>Conditions on a run\<close>

text \<open>
  The world at the start of the program: nothing written, \<open>paused = False\<close>,
  \<open>keyboard_listener = None\<close>.
\<close>

definition initial_world :: world where
  "initial_world =
     \<lparr> files = Map.empty, dirs = {}, paused = False, keyboard_listener = False,
       polls = 0, requests = 0, trace = [] \<rparr>"

text \<open>
  Outside the wait loops the listener runs and the flag is off (\<open>steady\<close>); a
  pause is always released when from every such state the wait loop returns
  (\<open>resumable\<close>).
\<close>

definition steady :: "world \<Rightarrow> bool" where
  "steady w = (keyboard_listener w \<and> \<not> paused w)"

definition resumable :: "(key \<Rightarrow> bool \<Rightarrow> bool) \<Rightarrow> env \<Rightarrow> bool" where
  "resumable handler env = (\<forall>w. steady w \<longrightarrow> wait_while_paused handler env w \<noteq> None)"

text \<open>
  The events of one wait loop that saw the flag on \<open>n\<close> times: \<open>n\<close> reads followed
  by a sleep of half a second each, and the read that saw it off.
\<close>

definition waiting :: "nat \<Rightarrow> event list" where
  "waiting n = concat (replicate n [Poll True, Sleep 500]) @ [Poll False]"

text \<open>
  What one wait loop does, from \<open>w\<close> to \<open>w'\<close>: it reads the flag and sleeps, and
  changes nothing else; no request is sent; it ends with the flag off.
\<close>

definition waited :: "world \<Rightarrow> world \<Rightarrow> bool" where
  "waited w w' =
     (files w' = files w \<and> dirs w' = dirs w \<and> keyboard_listener w' = keyboard_listener w
      \<and> requests w' = requests w \<and> \<not> paused w'
      \<and> (\<exists>n. trace w' = trace w @ waiting n \<and> polls w' = polls w + Suc n))"

text \<open>The payloads of the requests in a trace, in order.\<close>

definition posts :: "event list \<Rightarrow> payload list" where
  "posts es = List.map_filter (\<lambda>e. case e of Post url pl \<Rightarrow> Some pl | _ \<Rightarrow> None) es"

text \<open>
  An answer of the service that the loop survives: a \<open>RequestException\<close>, or a body
  with a list of images that all decode.
\<close>

definition decodable :: "image_data \<Rightarrow> bool" where
  "decodable img = (case img of Base64 b \<Rightarrow> True | Malformed t \<Rightarrow> False)"

definition good_response :: "http_result \<Rightarrow> bool" where
  "good_response r =
     (case r of
        RequestException e \<Rightarrow> True
      | Response images text \<Rightarrow> (case images of None \<Rightarrow> False | Some imgs \<Rightarrow> list_all decodable imgs))"

definition is_post :: "event \<Rightarrow> bool" where
  "is_post e = (case e of Post url pl \<Rightarrow> True | _ \<Rightarrow> False)"

definition is_listener_event :: "event \<Rightarrow> bool" where
  "is_listener_event e = (e = ListenerStart \<or> e = ListenerStop)"

text \<open>
  What every step of the generation leaves as it is, from a world \<open>w\<close> to a later
  world \<open>w'\<close>: the listener is neither started nor stopped, no file is removed,
  only files whose name ends in \<open>.png\<close> are written, no directory is removed, and
  the trace grows.
\<close>

definition gen_frame :: "world \<Rightarrow> world \<Rightarrow> bool" where
  "gen_frame w w' =
     (keyboard_listener w' = keyboard_listener w
      \<and> dom (files w) \<subseteq> dom (files w')
      \<and> (\<forall>p. \<not> suffix ''.png'' p \<longrightarrow> files w' p = files w p)
      \<and> dirs w \<subseteq> dirs w'
      \<and> requests w \<le> requests w'
      \<and> (\<exists>es. trace w' = trace w @ es \<and> \<not> list_ex is_listener_event es))"

text \<open>
  An item is ready when its descriptor loads, its control values convert to
  integers and its prompt can be built. \<open>iterations_of\<close> is the number of iterations
  its descriptor asks for.
\<close>

definition succeeds :: "exn + 'a \<Rightarrow> bool" where
  "succeeds r = (case r of Inl e \<Rightarrow> False | Inr v \<Rightarrow> True)"

definition descriptor_ready :: "settings \<Rightarrow> descriptor \<Rightarrow> bool" where
  "descriptor_ready st data =
     (succeeds (py_int (dict_get data ''Number of Images'' (JInt 1)))
      \<and> succeeds (py_int (dict_get data ''Number of Iterations'' (JInt 1)))
      \<and> succeeds (py_int (dict_get data ''Seed'' (JInt (seed st))))
      \<and> succeeds (lora_prompt st (dict_get data ''Positive prompt'' (JStr []))))"

definition item_ready :: "settings \<Rightarrow> world \<Rightarrow> string \<Rightarrow> string \<Rightarrow> bool" where
  "item_ready st w base_dir item_name =
     (case load_descriptor w (path_join (path_join base_dir item_name) ''prompt.json'') of
        Inl e \<Rightarrow> False
      | Inr data \<Rightarrow> descriptor_ready st data)"

definition iterations_of :: "world \<Rightarrow> string \<Rightarrow> string \<Rightarrow> nat" where
  "iterations_of w base_dir item_name =
     (case load_descriptor w (path_join (path_join base_dir item_name) ''prompt.json'') of
        Inl e \<Rightarrow> 0
      | Inr data \<Rightarrow>
          (case py_int (dict_get data ''Number of Iterations'' (JInt 1)) of
             Inl e \<Rightarrow> 0
           | Inr n \<Rightarrow> nat n))"

text \<open>
  In \<open>v1.0/main.py\<close> only the seed is read from the descriptor.
\<close>

definition item_ready_v1 :: "settings \<Rightarrow> world \<Rightarrow> string \<Rightarrow> string \<Rightarrow> bool" where
  "item_ready_v1 st w base_dir item_name =
     (case load_descriptor w (path_join (path_join base_dir item_name) ''prompt.json'') of
        Inl e \<Rightarrow> False
      | Inr data \<Rightarrow>
          succeeds (py_int (dict_get data ''Seed'' (JInt (seed st))))
          \<and> succeeds (lora_prompt st (dict_get data ''Positive prompt'' (JStr []))))"

text \<open>
  What a completed part of the loop leaves, from \<open>w\<close> to \<open>w'\<close>: the listener runs
  and the flag is off, the directories \<open>ds\<close> were made, and the requests \<open>pls\<close> were
  sent, in this order.
\<close>

definition advanced :: "string set \<Rightarrow> payload list \<Rightarrow> world \<Rightarrow> world \<Rightarrow> bool" where
  "advanced ds pls w w' =
     (steady w' \<and> gen_frame w w' \<and> dirs w' = dirs w \<union> ds
      \<and> requests w' = requests w + length pls
      \<and> posts (trace w') = posts (trace w) @ pls)"

section \<open>A small run\<close>

text \<open>
  A story \<open>S\<close> with the characters \<open>A\<close> and \<open>B\<close>. The descriptor of \<open>A\<close> asks
  for two iterations. The service fails on the first request and answers every other
  request with one image. No key is pressed.
\<close>

definition demo_settings :: settings where
  "demo_settings =
     \<lparr> model = ''m'', lora = [], lora_weight = ''1.0'', sampling_method = ''Euler'',
       scheduler = ''Karras'', sampling_steps = 20, width = 512, height = 768,
       cfg_scale = ''7.5'', seed = - 1, api_endpoint = ''http://h'' \<rparr>"

definition demo_world :: world where
  "demo_world =
     \<lparr> files = [''S/Characters/A/prompt.json'' \<mapsto>
                   JsonObject [(''Number of Iterations'', JInt 2), (''Seed'', JInt 7)],
                 ''S/Characters/B/prompt.json'' \<mapsto> JsonObject []],
       dirs = {}, paused = False, keyboard_listener = True, polls = 0, requests = 0,
       trace = [] \<rparr>"

definition demo_env :: env where
  "demo_env =
     \<lparr> listdir = (\<lambda>d. if d = ''S/Characters'' then Some [''A'', ''B''] else None),
       read_text = (\<lambda>p. None),
       post = (\<lambda>k pl. if k = 0 then RequestException ''timeout''
                       else Response (Some [Base64 ''img'']) ''{}''),
       key_events = (\<lambda>k. []),
       hand_edit = (\<lambda>fs. fs) \<rparr>"

text \<open>
  The same story after the user edited the descriptor of \<open>A\<close> by hand: two images
  per request, three iterations, seed 7. \<open>B\<close> has no descriptor.
\<close>

definition edited_world :: world where
  "edited_world =
     \<lparr> files = [''S/Characters/A/prompt.json'' \<mapsto>
                   JsonObject [(''Number of Images'', JInt 2), (''Number of Iterations'', JInt 3),
                               (''Seed'', JInt 7)]],
       dirs = {}, paused = False, keyboard_listener = True, polls = 0, requests = 0,
       trace = [] \<rparr>"

text \<open>
  A world in which the descriptor of \<open>A\<close> is not JSON, and a service whose first
  image decodes and whose second does not.
\<close>

definition broken_world :: world where
  "broken_world =
     \<lparr> files = [''S/Characters/A/prompt.json'' \<mapsto> Text ''{oops'',
                 ''S/Characters/B/prompt.json'' \<mapsto> JsonObject []],
       dirs = {}, paused = False, keyboard_listener = True, polls = 0, requests = 0,
       trace = [] \<rparr>"

definition bad_env :: env where
  "bad_env = demo_env\<lparr>post := (\<lambda>k pl. Response (Some [Base64 ''a'', Malformed ''x'']) ''{}'')\<rparr>"

text \<open>
  What is seen of a run: the exception that ended it, if any, the number of requests
  sent, the directories made and the files written, in order, and whether the
  listener is still running.
\<close>

definition summary ::
  "result option \<Rightarrow> (exn option \<times> nat \<times> string list \<times> string list \<times> bool) option" where
  "summary r =
     map_option
       (\<lambda>r. (case r of Done w \<Rightarrow> None | Raised e w \<Rightarrow> Some e,
             requests (world_of r),
             List.map_filter (\<lambda>e. case e of MkDir d \<Rightarrow> Some d | _ \<Rightarrow> None) (trace (world_of r)),
             List.map_filter (\<lambda>e. case e of WriteFile p \<Rightarrow> Some p | _ \<Rightarrow> None)
               (trace (world_of r)),
             keyboard_listener (world_of r))) r"

section \<open>Properties of the string primitives\<close>

lemma strip_space_Cons: "is_space c \<Longrightarrow> strip (c # s) = strip s"
  by (simp add: strip_def)

lemma strip_space_snoc: "is_space c \<Longrightarrow> strip (s @ [c]) = strip s"
proof (cases "\<forall>x\<in>set s. is_space x")
  case True
  assume "is_space c"
  with True have "dropWhile is_space (s @ [c]) = []" "dropWhile is_space s = []"
    by (induction s) auto
  thus ?thesis by (simp only: strip_def rev.simps dropWhile.simps)
next
  case False
  assume "is_space c"
  with False show ?thesis by (auto simp add: strip_def dropWhile_append)
qed

lemma dropWhile_rev_fixed:
  assumes "xs \<noteq> [] \<longrightarrow> \<not> P (hd xs)"
  shows "dropWhile P (rev (dropWhile P (rev xs))) = rev (dropWhile P (rev xs))"
proof (cases "dropWhile P (rev xs) = []")
  case True thus ?thesis by (simp only: rev.simps dropWhile.simps)
next
  case False
  define u where "u = dropWhile P (rev xs)"
  have "rev xs = takeWhile P (rev xs) @ u" by (simp add: u_def)
  with False have "last (rev xs) = last u" unfolding u_def by (metis last_appendR)
  moreover from False have "xs \<noteq> []" by auto
  ultimately have "last u = hd xs" by (simp add: last_rev)
  with assms \<open>xs \<noteq> []\<close> have "\<not> P (last u)" by simp
  moreover from False have "u \<noteq> []" by (simp add: u_def)
  ultimately have "dropWhile P (rev u) = rev u"
    by (cases u rule: rev_cases) auto
  thus ?thesis by (simp add: u_def)
qed

lemma strip_idem: "strip (strip s) = strip s"
proof -
  have "dropWhile is_space s \<noteq> [] \<longrightarrow> \<not> is_space (hd (dropWhile is_space s))"
    by (simp add: hd_dropWhile)
  from dropWhile_rev_fixed[of "dropWhile is_space s" is_space, OF this] show ?thesis by (simp add: strip_def)
qed

lemma is_space_nl: "is_space (CHR 0x0A)"
  by (simp add: is_space_def)

lemma split_acc_step:
  "\<not> prefix sep (c # cs) \<Longrightarrow> split_acc sep acc (c # cs) = split_acc sep (c # acc) cs"
  by simp

lemma no_prefix_across:
  assumes "\<not> prefix ''---'' (c # cs)" "rest = [] \<or> hd rest = CHR 0x0A"
  shows "\<not> prefix ''---'' (c # cs @ rest)"
proof (cases cs)
  case Nil
  with assms(2) show ?thesis by (cases rest) (auto simp: prefix_Cons)
next
  case (Cons c2 cs2)
  show ?thesis
  proof (cases cs2)
    case Nil
    with Cons assms(2) show ?thesis by (cases rest) (auto simp: prefix_Cons)
  next
    case (Cons c3 cs3)
    with \<open>cs = c2 # cs2\<close> assms(1) show ?thesis by (auto simp: prefix_Cons)
  qed
qed

lemma split_acc_line:
  assumes "\<not> has_substring ''---'' l" "rest = [] \<or> hd rest = CHR 0x0A"
  shows "split_acc ''---'' acc (l @ rest) = split_acc ''---'' (rev l @ acc) rest"
  using assms(1)
proof (induction l arbitrary: acc)
  case Nil thus ?case by simp
next
  case (Cons c cs)
  from Cons.prems have a: "\<not> prefix ''---'' (c # cs)" and b: "\<not> has_substring ''---'' cs"
    by (simp_all only: has_substring.simps de_Morgan_disj simp_thms)
  have "split_acc ''---'' acc ((c # cs) @ rest) = split_acc ''---'' (c # acc) (cs @ rest)"
    by (simp only: append_Cons split_acc_step[OF no_prefix_across[OF a assms(2)]])
  also have "\<dots> = split_acc ''---'' (rev cs @ c # acc) rest"
    by (rule Cons.IH[OF b])
  finally show ?case by simp
qed


lemma split_acc_pieces:
  "well_formed_lines ls \<Longrightarrow> split_acc ''---'' (rev p) (join_lines ls) = split_pieces p ls"
proof (induction p ls rule: split_pieces.induct)
  case (1 p) thus ?case by simp
next
  case (2 p l)
  show ?case
  proof (cases "l = ''---''")
    case True thus ?thesis by simp
  next
    case False
    with 2 have "\<not> has_substring ''---'' l" by (auto simp: well_formed_lines_def)
    from split_acc_line[OF this, of "[]" "rev p"] False show ?thesis by simp
  qed
next
  case (3 p l l' ls)
  show ?case
  proof (cases "l = ''---''")
    case True 
    with 3 show ?thesis by (simp add: well_formed_lines_def)
  next
    case False
    with 3 have ns: "\<not> has_substring ''---'' l" by (auto simp: well_formed_lines_def)
    have "split_acc ''---'' (rev p) (l @ CHR 0x0A # join_lines (l' # ls)) = split_acc ''---'' (rev l @ rev p) (CHR 0x0A # join_lines (l' # ls))"
      using split_acc_line[OF ns, of "CHR 0x0A # join_lines (l' # ls)" "rev p"] by simp
    moreover have "split_acc ''---'' (rev l @ rev p) (CHR 0x0A # join_lines (l' # ls)) = split_acc ''---'' (CHR 0x0A # rev l @ rev p) (join_lines (l' # ls))"
      by (rule split_acc_step) (simp add: prefix_Cons)
    ultimately show ?thesis using 3 False by (simp add: well_formed_lines_def)
  qed
qed

lemma spec_blocks_nonempty: "spec_blocks ls \<noteq> []"
  by (induction ls) auto

lemma strip_pieces:
  "map strip (split_pieces p ls) =
     strip (p @ join_lines (hd (spec_blocks ls))) # map (\<lambda>g. strip (join_lines g)) (tl (spec_blocks ls))"
proof (induction p ls rule: split_pieces.induct)
  case (1 p) show ?case by simp
next
  case (2 p l) show ?case by simp
next
  case (3 p l l' ls)
  show ?case
  proof (cases "l = ''---''")
    case True
    with 3 show ?thesis by (simp add: strip_space_Cons is_space_nl)
  next
    case False
    have "strip (p @ l @ CHR 0x0A # join_lines (hd (spec_blocks (l' # ls)))) = strip (p @ join_lines (l # hd (spec_blocks (l' # ls))))"
    proof (cases "hd (spec_blocks (l' # ls))")
      case Nil 
      have "strip ((p @ l) @ [CHR 0x0A]) = strip (p @ l)" by (rule strip_space_snoc[OF is_space_nl])
      with Nil show ?thesis by simp
    next
      case (Cons a as) thus ?thesis by simp
    qed
    with 3 False show ?thesis by simp
  qed
qed

lemma split_acc_nonempty: "split_acc sep acc s \<noteq> []"
  by (induction sep acc s rule: split_acc.induct) auto

lemma join_lines_Cons: "ls \<noteq> [] \<Longrightarrow> join_lines (l # ls) = l @ CHR 0x0A # join_lines ls"
  by (cases ls) auto

lemma join_split_acc: "join_lines (split_acc [CHR 0x0A] acc s) = rev acc @ s"
proof (induction s arbitrary: acc)
  case Nil show ?case by simp
next
  case (Cons c cs)
  show ?case
  proof (cases "c = CHR 0x0A")
    case True
    have "join_lines (rev acc # split_acc [CHR 0x0A] [] cs) = rev acc @ CHR 0x0A # join_lines (split_acc [CHR 0x0A] [] cs)"
      by (rule join_lines_Cons[OF split_acc_nonempty])
    with True Cons[of "[]"] show ?thesis by simp
  next
    case False
    with Cons[of "c # acc"] show ?thesis by simp
  qed
qed

lemma join_split: "join_lines (split s [CHR 0x0A]) = s"
  by (simp add: split_def join_split_acc)

lemma parse_prompt_block_strip: "parse_prompt_block (strip b) = parse_prompt_block b"
  by (simp add: parse_prompt_block_def strip_idem)

lemma load_prompts_lines:
  assumes "well_formed_lines ls"
  shows "load_prompts (join_lines ls) =
     map (\<lambda>g. strip (join_lines g)) (filter nonblank_block (spec_blocks ls))"
proof -
  have "split (join_lines ls) ''---'' = split_pieces [] ls"
    using split_acc_pieces[OF assms, of "[]"] by (simp add: split_def)
  hence "load_prompts (join_lines ls) = filter (\<lambda>b. b \<noteq> []) (map strip (split_pieces [] ls))"
    by (simp add: load_prompts_def filter_map comp_def)
  also have "map strip (split_pieces [] ls) = map (\<lambda>g. strip (join_lines g)) (spec_blocks ls)"
    using strip_pieces[of "[]" ls] spec_blocks_nonempty[of ls]
    by (cases "spec_blocks ls") auto
  finally show ?thesis by (simp add: filter_map comp_def nonblank_block_def[abs_def])
qed

lemma map_entry_update: "AList.map_entry k f (AList.update k v d) = AList.update k (f v) d"
  by (induction d) auto

lemma map_entry_map_entry: "AList.map_entry k f (AList.map_entry k g d) = AList.map_entry k (\<lambda>v. f (g v)) d"
  by (induction d) auto

lemma map_entry_append_Nil: "AList.map_entry k (\<lambda>v. v) d = d"
  by (induction d) auto

lemma continuation_Cons:
  "continuation f (l # ls) = (if CHR '':'' \<in> set l then [] else '' '' @ f l @ continuation f ls)"
  by (simp add: continuation_def)

lemma foldl_parse_line:
  assumes "labelled ls"
  shows "fst (foldl parse_line (data, None) ls)
           = foldl (\<lambda>data (k, v). AList.update k v data) data (spec_fields strip ls)"
    and "k \<noteq> [] \<Longrightarrow> fst (foldl parse_line (data, Some k) ls)
           = foldl (\<lambda>data (k, v). AList.update k v data)
               (AList.map_entry k (\<lambda>v. v @ continuation strip ls) data) (spec_fields strip ls)"
  using assms
proof (induction ls arbitrary: data k)
  case Nil
  { case 1 show ?case by simp }
  { case 2 show ?case by (simp add: continuation_def map_entry_append_Nil) }
next
  case (Cons l ls)
  { case 1
    then have lab: "labelled ls" and nz: "CHR '':'' \<in> set l \<Longrightarrow> strip (fst (split_colon l)) \<noteq> []"
      by (simp_all add: labelled_def)
    show ?case
    proof (cases "CHR '':'' \<in> set l")
      case True
      with Cons.IH(2)[OF nz[OF True] lab] show ?thesis
        by (simp add: parse_line_def split_beta map_entry_update)
    next
      case False
      with Cons.IH(1)[OF lab] show ?thesis by (simp add: parse_line_def)
    qed }
  { case 2
    then have lab: "labelled ls" and nz: "CHR '':'' \<in> set l \<Longrightarrow> strip (fst (split_colon l)) \<noteq> []"
      by (simp_all add: labelled_def)
    show ?case
    proof (cases "CHR '':'' \<in> set l")
      case True
      with Cons.IH(2)[OF nz[OF True] lab] show ?thesis
        by (simp add: parse_line_def split_beta map_entry_update continuation_Cons map_entry_append_Nil)
    next
      case False
      with Cons.IH(2)[OF \<open>k \<noteq> []\<close> lab] \<open>k \<noteq> []\<close> show ?thesis
        by (simp add: parse_line_def continuation_Cons map_entry_map_entry)
    qed }
qed

lemma spec_fields_no_colon:
  "list_all (\<lambda>l. CHR '':'' \<notin> set l) ls \<Longrightarrow> spec_fields f ls = []"
  by (induction ls) auto

lemma parse_prompt_block_spec_record:
  assumes "labelled (split (strip block) [CHR 0x0A])"
  shows "parse_prompt_block block
           = spec_record (spec_fields strip (split (strip block) [CHR 0x0A]))"
  using foldl_parse_line(1)[OF assms, of "[]"]
  by (simp add: parse_prompt_block_def spec_record_def)

section \<open>The claims about the parser\<close>

text \<open>
  Claim C3. For every well-formed prompt text, that is a text in which \<open>---\<close> occurs
  only as a line of its own, parsing yields one record for every nonblank block
  between the separator lines, in the order of the blocks; blank blocks are dropped.
  With \<open>N\<close> nonblank blocks the result has exactly \<open>N\<close> records.
\<close>

theorem create_prompts_blocks:
  assumes "well_formed_lines (split content [CHR 0x0A])"
  shows "create_prompts content =
           map (\<lambda>g. parse_prompt_block (join_lines g))
             (filter nonblank_block (spec_blocks (split content [CHR 0x0A])))
         \<and> length (create_prompts content) =
           length (filter nonblank_block (spec_blocks (split content [CHR 0x0A])))"
proof -
  from load_prompts_lines[OF assms]
  have "create_prompts content =
           map (\<lambda>g. parse_prompt_block (join_lines g))
             (filter nonblank_block (spec_blocks (split content [CHR 0x0A])))"
    by (simp add: create_prompts_def join_split comp_def parse_prompt_block_strip)
  thus ?thesis by simp
qed

theorem create_prompts_blocks_witness:
  "well_formed_lines (split ''Name: A\<newline>x: y\<newline>---\<newline>\<newline>---\<newline>Name: B'' [CHR 0x0A])
   \<and> length (create_prompts ''Name: A\<newline>x: y\<newline>---\<newline>\<newline>---\<newline>Name: B'') = 2
   \<and> create_prompts ''Name: A\<newline>x: y\<newline>---\<newline>\<newline>---\<newline>Name: B''
       = [[(''Name'', ''A''), (''x'', ''y'')], [(''Name'', ''B'')]]"
proof -
  have h: "well_formed_lines
             (split ''Name: A\<newline>x: y\<newline>---\<newline>\<newline>---\<newline>Name: B'' [CHR 0x0A])"
    by code_simp
  have n: "length (filter nonblank_block (spec_blocks
             (split ''Name: A\<newline>x: y\<newline>---\<newline>\<newline>---\<newline>Name: B'' [CHR 0x0A]))) = 2"
    by code_simp
  have v: "map (\<lambda>g. parse_prompt_block (join_lines g)) (filter nonblank_block (spec_blocks
             (split ''Name: A\<newline>x: y\<newline>---\<newline>\<newline>---\<newline>Name: B'' [CHR 0x0A])))
           = [[(''Name'', ''A''), (''x'', ''y'')], [(''Name'', ''B'')]]"
    by code_simp
  from create_prompts_blocks[OF h] h n v show ?thesis by simp
qed

text \<open>
  Claim C4, as it is worded: a line without a colon is appended as it stands,
  joined by a single space, to the value of the most recently started field. The
  block \<open>A: b\<close>, \<open>  c\<close> refutes it: the program trims the line before it appends it.
\<close>

theorem parse_prompt_block_untrimmed_counterexample:
  "parse_prompt_block ''A: b\<newline>  c'' = [(''A'', ''b c'')]
   \<and> spec_record (spec_fields id (split (strip ''A: b\<newline>  c'') [CHR 0x0A])) = [(''A'', ''b   c'')]
   \<and> parse_prompt_block ''A: b\<newline>  c''
       \<noteq> spec_record (spec_fields id (split (strip ''A: b\<newline>  c'') [CHR 0x0A]))"
  by code_simp

text \<open>
  Claim C4, amended. For every block in which no line with a colon has a blank
  label, the record is built from the lines in order: a line with a colon starts a
  field whose label is the trimmed text before the first colon and whose value is
  the trimmed rest; a line without a colon is trimmed and appended, joined by a
  single space, to the value of the most recently started field (and is ignored
  when no field was started); a later field replaces an earlier one of the same
  label. A block without a colon line yields the empty record, and the block
  \<open>Description: A hero\<close>, \<open>who flies\<close> yields \<open>{Description: A hero who flies}\<close>.
\<close>

theorem parse_prompt_block_fields:
  assumes "labelled (split (strip block) [CHR 0x0A])"
  shows "parse_prompt_block block
           = spec_record (spec_fields strip (split (strip block) [CHR 0x0A]))
         \<and> (list_all (\<lambda>l. CHR '':'' \<notin> set l) (split (strip block) [CHR 0x0A])
              \<longrightarrow> parse_prompt_block block = [])
         \<and> parse_prompt_block ''Description: A hero\<newline>who flies''
              = [(''Description'', ''A hero who flies'')]"
proof -
  have a: "parse_prompt_block block
             = spec_record (spec_fields strip (split (strip block) [CHR 0x0A]))"
    by (rule parse_prompt_block_spec_record[OF assms])
  have b: "list_all (\<lambda>l. CHR '':'' \<notin> set l) (split (strip block) [CHR 0x0A])
             \<longrightarrow> parse_prompt_block block = []"
    using a by (auto simp: spec_fields_no_colon spec_record_def)
  have c: "parse_prompt_block ''Description: A hero\<newline>who flies''
             = [(''Description'', ''A hero who flies'')]"
    by code_simp
  from a b c show ?thesis by blast
qed

theorem parse_prompt_block_fields_witness:
  "labelled (split (strip ''Name: Jean Grey\<newline>Description: A hero\<newline>  who flies\<newline>Name: Phoenix'') [CHR 0x0A])
   \<and> parse_prompt_block ''Name: Jean Grey\<newline>Description: A hero\<newline>  who flies\<newline>Name: Phoenix''
       = [(''Name'', ''Phoenix''), (''Description'', ''A hero who flies'')]
   \<and> \<not> list_all (\<lambda>l. CHR '':'' \<notin> set l)
         (split (strip ''Name: Jean Grey\<newline>Description: A hero\<newline>  who flies\<newline>Name: Phoenix'') [CHR 0x0A])
   \<and> labelled (split (strip ''no colon here'') [CHR 0x0A])
   \<and> list_all (\<lambda>l. CHR '':'' \<notin> set l) (split (strip ''no colon here'') [CHR 0x0A])
   \<and> parse_prompt_block ''no colon here'' = []"
proof -
  have h: "labelled (split (strip ''Name: Jean Grey\<newline>Description: A hero\<newline>  who flies\<newline>Name: Phoenix'') [CHR 0x0A])"
    by code_simp
  have v: "spec_record (spec_fields strip
             (split (strip ''Name: Jean Grey\<newline>Description: A hero\<newline>  who flies\<newline>Name: Phoenix'') [CHR 0x0A]))
           = [(''Name'', ''Phoenix''), (''Description'', ''A hero who flies'')]"
    by code_simp
  have n: "\<not> list_all (\<lambda>l. CHR '':'' \<notin> set l)
         (split (strip ''Name: Jean Grey\<newline>Description: A hero\<newline>  who flies\<newline>Name: Phoenix'') [CHR 0x0A])"
    by code_simp
  have h2: "labelled (split (strip ''no colon here'') [CHR 0x0A])"
    by code_simp
  have n2: "list_all (\<lambda>l. CHR '':'' \<notin> set l) (split (strip ''no colon here'') [CHR 0x0A])"
    by code_simp
  from parse_prompt_block_fields[OF h] v
  have a: "parse_prompt_block ''Name: Jean Grey\<newline>Description: A hero\<newline>  who flies\<newline>Name: Phoenix''
             = [(''Name'', ''Phoenix''), (''Description'', ''A hero who flies'')]"
    by simp
  from parse_prompt_block_fields[OF h2] n2
  have b: "parse_prompt_block ''no colon here'' = []"
    by blast
  from a b h n h2 n2 show ?thesis by blast
qed

text \<open>
  Claim C10 says that a label given twice keeps the value of its last line together
  with the continuation lines of that line. For the blank label the program keeps
  the value of the last line alone: in the block \<open>:a\<close>, \<open>:b\<close>, \<open>c\<close> the test
  \<open>if current_key:\<close> fails on the empty label and the line \<open>c\<close> is dropped, where
  the fields of the block give \<open>b c\<close>.
\<close>

theorem parse_prompt_block_blank_label:
  "parse_prompt_block '':a\<newline>:b\<newline>c'' = [('''', ''b'')]
   \<and> spec_record (spec_fields strip (split (strip '':a\<newline>:b\<newline>c'') [CHR 0x0A]))
       = [('''', ''b c'')]"
  by code_simp

section \<open>The steps of the generation and what they leave unchanged\<close>

lemma emit_fields [simp]:
  "files (emit e w) = files w" "dirs (emit e w) = dirs w" "paused (emit e w) = paused w"
  "keyboard_listener (emit e w) = keyboard_listener w" "polls (emit e w) = polls w"
  "requests (emit e w) = requests w" "trace (emit e w) = trace w @ [e]"
  by (simp_all add: emit_def)

lemma makedirs_fields [simp]:
  "files (makedirs d w) = files w" "dirs (makedirs d w) = insert d (dirs w)"
  "paused (makedirs d w) = paused w" "keyboard_listener (makedirs d w) = keyboard_listener w"
  "polls (makedirs d w) = polls w" "requests (makedirs d w) = requests w"
  "trace (makedirs d w) = trace w @ [MkDir d]"
  by (simp_all add: makedirs_def)

lemma write_file_fields [simp]:
  "files (write_file p c w) = (files w)(p \<mapsto> c)" "dirs (write_file p c w) = dirs w"
  "paused (write_file p c w) = paused w"
  "keyboard_listener (write_file p c w) = keyboard_listener w"
  "polls (write_file p c w) = polls w" "requests (write_file p c w) = requests w"
  "trace (write_file p c w) = trace w @ [WriteFile p]"
  by (simp_all add: write_file_def)

lemma read_paused_fields [simp]:
  "files (read_paused h env w) = files w" "dirs (read_paused h env w) = dirs w"
  "keyboard_listener (read_paused h env w) = keyboard_listener w"
  "polls (read_paused h env w) = Suc (polls w)" "requests (read_paused h env w) = requests w"
  "trace (read_paused h env w) = trace w @ [Poll (paused (read_paused h env w))]"
  by (simp_all add: read_paused_def Let_def)

lemma http_post_fields [simp]:
  "fst (http_post env url pl w) = post env (requests w) pl"
  "files (snd (http_post env url pl w)) = files w" "dirs (snd (http_post env url pl w)) = dirs w"
  "paused (snd (http_post env url pl w)) = paused w"
  "keyboard_listener (snd (http_post env url pl w)) = keyboard_listener w"
  "polls (snd (http_post env url pl w)) = polls w"
  "requests (snd (http_post env url pl w)) = Suc (requests w)"
  "trace (snd (http_post env url pl w)) = trace w @ [Post url pl]"
  by (simp_all add: http_post_def)

lemma world_of_simps [simp]: "world_of (Done w) = w" "world_of (Raised e w) = w"
  by (simp_all add: world_of_def)

lemma waiting_Suc: "waiting (Suc n) = Poll True # Sleep 500 # waiting n"
  by (simp add: waiting_def)

lemma waiting_0: "waiting 0 = [Poll False]"
  by (simp add: waiting_def)

lemma posts_simps [simp]:
  "posts [] = []" "posts (a @ b) = posts a @ posts b"
  "posts (Post url pl # es) = pl # posts es"
  "posts (MkDir d # es) = posts es" "posts (WriteFile p # es) = posts es"
  "posts (Poll fl # es) = posts es" "posts (Sleep n # es) = posts es"
  "posts (Log l # es) = posts es" "posts (ListenerStart # es) = posts es"
  "posts (ListenerStop # es) = posts es"
  by (simp_all add: posts_def List.map_filter_def)

lemma posts_waiting [simp]: "posts (waiting n) = []"
  by (induction n) (simp_all add: waiting_0 waiting_Suc)

lemma list_ex_waiting [simp]: "\<not> list_ex is_listener_event (waiting n)"
  by (induction n) (simp_all add: waiting_0 waiting_Suc is_listener_event_def)

lemma wait_returns:
  assumes "wait_while_paused h env w = Some w'"
  shows "waited w w'"
proof (rule wait_while_paused.raw_induct[where P = "\<lambda>h env w w'. waited w w'", OF _ assms])
  fix f :: "(key \<Rightarrow> bool \<Rightarrow> bool) \<Rightarrow> env \<Rightarrow> world \<Rightarrow> world option" and h env w y
  assume IH: "\<And>h env w y. f h env w = Some y \<Longrightarrow> waited w y"
  assume eq: "(if paused (read_paused h env w)
      then f h env (emit (Sleep 500) (read_paused h env w))
      else Some (read_paused h env w)) = Some y"
  show "waited w y"
  proof (cases "paused (read_paused h env w)")
    case True
    with eq have "f h env (emit (Sleep 500) (read_paused h env w)) = Some y" by simp
    from IH[OF this] obtain n where
      fr: "files y = files w" "dirs y = dirs w" "keyboard_listener y = keyboard_listener w"
          "requests y = requests w" "\<not> paused y"
      and tr: "trace y = trace (emit (Sleep 500) (read_paused h env w)) @ waiting n"
      and po: "polls y = polls (emit (Sleep 500) (read_paused h env w)) + Suc n"
      unfolding waited_def by auto
    from tr True have "trace y = trace w @ waiting (Suc n)" by (simp add: waiting_Suc)
    moreover from po have "polls y = polls w + Suc (Suc n)" by simp
    ultimately show ?thesis using fr unfolding waited_def by blast
  next
    case False
    with eq have "y = read_paused h env w" by simp
    with False have "trace y = trace w @ waiting 0" "polls y = polls w + Suc 0"
      by (simp_all add: waiting_0)
    with False \<open>y = read_paused h env w\<close> show ?thesis
      unfolding waited_def by (intro conjI exI[of _ 0]) simp_all
  qed
qed

lemma gen_frame_refl [simp]: "gen_frame w w"
  by (simp add: gen_frame_def)

lemma gen_frame_trans:
  assumes "gen_frame w w'" "gen_frame w' w''"
  shows "gen_frame w w''"
proof -
  from assms(1) obtain es where a: "keyboard_listener w' = keyboard_listener w"
    "dom (files w) \<subseteq> dom (files w')" "\<forall>p. \<not> suffix ''.png'' p \<longrightarrow> files w' p = files w p"
    "dirs w \<subseteq> dirs w'" "requests w \<le> requests w'" "trace w' = trace w @ es"
    "\<not> list_ex is_listener_event es"
    unfolding gen_frame_def by blast
  from assms(2) obtain es' where b: "keyboard_listener w'' = keyboard_listener w'"
    "dom (files w') \<subseteq> dom (files w'')" "\<forall>p. \<not> suffix ''.png'' p \<longrightarrow> files w'' p = files w' p"
    "dirs w' \<subseteq> dirs w''" "requests w' \<le> requests w''" "trace w'' = trace w' @ es'"
    "\<not> list_ex is_listener_event es'"
    unfolding gen_frame_def by blast
  have "trace w'' = trace w @ (es @ es')" using a(6) b(6) by simp
  moreover have "\<not> list_ex is_listener_event (es @ es')" using a(7) b(7) by simp
  ultimately have "\<exists>es. trace w'' = trace w @ es \<and> \<not> list_ex is_listener_event es" by blast
  moreover have "dom (files w) \<subseteq> dom (files w'')" using a(2) b(2) by blast
  moreover have "\<forall>p. \<not> suffix ''.png'' p \<longrightarrow> files w'' p = files w p" using a(3) b(3) by simp
  moreover have "dirs w \<subseteq> dirs w''" using a(4) b(4) by blast
  moreover have "requests w \<le> requests w''" using a(5) b(5) by simp
  moreover have "keyboard_listener w'' = keyboard_listener w" using a(1) b(1) by simp
  ultimately show ?thesis unfolding gen_frame_def by blast
qed

lemma gen_frame_emit: "\<not> is_listener_event e \<Longrightarrow> gen_frame w (emit e w)"
  by (simp add: gen_frame_def)

lemma gen_frame_log [simp]: "gen_frame w (emit (Log l) w)"
  by (simp add: gen_frame_emit is_listener_event_def)

lemma gen_frame_makedirs [simp]: "gen_frame w (makedirs d w)"
  by (simp add: gen_frame_def is_listener_event_def subset_insertI)

lemma gen_frame_write_png: "suffix ''.png'' p \<Longrightarrow> gen_frame w (write_file p c w)"
  by (auto simp add: gen_frame_def is_listener_event_def)

lemma gen_frame_post [simp]: "gen_frame w (snd (http_post env url pl w))"
  by (simp add: gen_frame_def is_listener_event_def)

lemma gen_frame_waited:
  assumes "waited w w'"
  shows "gen_frame w w'"
proof -
  from assms obtain n where "files w' = files w" "dirs w' = dirs w"
    "keyboard_listener w' = keyboard_listener w" "requests w' = requests w"
    "trace w' = trace w @ waiting n"
    unfolding waited_def by blast
  thus ?thesis
    unfolding gen_frame_def by (intro conjI exI[of _ "waiting n"]) simp_all
qed

lemma gen_frame_wait: "wait_while_paused h env w = Some w' \<Longrightarrow> gen_frame w w'"
  by (rule gen_frame_waited[OF wait_returns])

lemma suffix_path_join: "suffix b (path_join a b)"
  by (auto simp: path_join_def suffix_def)

lemma suffix_png_image_path:
  "suffix ''.png'' (path_join d (n @ ''_'' @ i @ ''_'' @ k @ ''.png''))"
proof -
  have "suffix ''.png'' (n @ ''_'' @ i @ ''_'' @ k @ ''.png'')"
    by (simp add: suffix_def)
  thus ?thesis using suffix_path_join suffix_order.trans by blast
qed

lemma gen_frame_save_images:
  "gen_frame w (world_of (save_images d item it idx imgs w))"
proof (induction imgs arbitrary: idx w)
  case Nil show ?case by simp
next
  case (Cons img imgs)
  show ?case
  proof (cases img)
    case (Malformed t) thus ?thesis by simp
  next
    case (Base64 b)
    have "gen_frame w (write_file (path_join d (item @ ''_'' @ str_int it @ ''_'' @ str_nat (idx + 1) @ ''.png'')) (Bytes b) w)"
      by (rule gen_frame_write_png[OF suffix_png_image_path])
    from gen_frame_trans[OF this Cons] Base64 show ?thesis by simp
  qed
qed

lemma handle_response_frame:
  assumes "handle_response h env d item it resp w = Some r"
  shows "gen_frame w (world_of r)"
proof (cases resp)
  case (RequestException e)
  with assms show ?thesis by (auto simp: handle_response_def)
next
  case (Response images body)
  let ?w1 = "emit (Log (InfoResponse body)) w"
  have f1: "gen_frame w ?w1" by simp
  show ?thesis
  proof (cases images)
    case None
    with Response assms f1 show ?thesis by (auto simp: handle_response_def)
  next
    case (Some imgs)
    have f2: "gen_frame ?w1 (world_of (save_images d item it 0 imgs ?w1))"
      by (rule gen_frame_save_images)
    show ?thesis
    proof (cases "save_images d item it 0 imgs ?w1")
      case (Raised e w2)
      with Response Some assms have "r = Raised e w2" by (simp add: handle_response_def)
      with f2 Raised gen_frame_trans[OF f1] show ?thesis by simp
    next
      case (Done w2)
      with Response Some assms obtain w3 where w3: "wait_while_paused h env w2 = Some w3" "r = Done w3"
        by (auto simp: handle_response_def)
      from f2 Done have "gen_frame ?w1 w2" by simp
      from gen_frame_trans[OF f1 gen_frame_trans[OF this gen_frame_wait[OF w3(1)]]] w3(2)
      show ?thesis by simp
    qed
  qed
qed

lemma send_request_frame:
  assumes "send_request h env st d item it pl w = Some r"
  shows "gen_frame w (world_of r)"
proof -
  let ?w1 = "emit (Log (InfoPayload pl)) (emit (Log (InfoGenerating item it)) w)"
  let ?sent = "http_post env (api_endpoint st @ ''/sdapi/v1/txt2img'') pl ?w1"
  have "gen_frame w ?w1" by (rule gen_frame_trans[OF gen_frame_log gen_frame_log])
  hence a: "gen_frame w (snd ?sent)" by (rule gen_frame_trans) simp
  from assms have "handle_response h env d item it (fst ?sent) (snd ?sent) = Some r"
    by (simp add: send_request_def Let_def)
  from gen_frame_trans[OF a handle_response_frame[OF this]] show ?thesis .
qed

lemma iteration_body_frame:
  assumes "iteration_body h env st item_dir item data ni sd it w = Some r"
  shows "gen_frame w (world_of r)"
proof -
  let ?d = "path_join item_dir (''Iteration_'' @ str_int it)"
  let ?w1 = "makedirs ?d w"
  show ?thesis
  proof (cases "lora_prompt st (dict_get data ''Positive prompt'' (JStr []))")
    case (Inl e)
    with assms have "r = Raised e ?w1" by (simp add: iteration_body_def Let_def)
    thus ?thesis by simp
  next
    case (Inr prompt)
    with assms obtain w2 where w2: "wait_while_paused h env ?w1 = Some w2"
      and s: "send_request h env st ?d item it
                (build_payload st prompt (dict_get data ''Negative prompt'' (JStr [])) sd ni) w2 = Some r"
      by (auto simp: iteration_body_def Let_def split: option.splits)
    from gen_frame_trans[OF gen_frame_makedirs gen_frame_trans[OF gen_frame_wait[OF w2] send_request_frame[OF s]]]
    show ?thesis .
  qed
qed

lemma for_each_frame:
  assumes "\<And>x w r. body x w = Some r \<Longrightarrow> gen_frame w (world_of r)"
    and "for_each body xs w = Some r"
  shows "gen_frame w (world_of r)"
  using assms(2)
proof (induction xs arbitrary: w)
  case Nil thus ?case by auto
next
  case (Cons x xs)
  show ?case
  proof (cases "body x w")
    case None with Cons.prems show ?thesis by simp
  next
    case (Some r1)
    note f = assms(1)[OF Some]
    show ?thesis
    proof (cases r1)
      case (Raised e w') 
      with Some Cons.prems f show ?thesis by auto
    next
      case (Done w')
      with Some Cons.prems have "for_each body xs w' = Some r" by simp
      from Cons.IH[OF this] f Done show ?thesis by (auto intro: gen_frame_trans)
    qed
  qed
qed

lemma generate_item_frame:
  assumes "generate_item env st base item w = Some r"
  shows "gen_frame w (world_of r)"
  using assms
  by (auto simp: generate_item_def Let_def split: sum.splits
           intro: for_each_frame[OF iteration_body_frame])

lemma generate_item_v1_frame:
  assumes "generate_item_v1 env st ni nit base item w = Some r"
  shows "gen_frame w (world_of r)"
  using assms
  by (auto simp: generate_item_v1_def Let_def split: sum.splits if_splits
           intro: for_each_frame[OF iteration_body_frame])

lemma generate_images_frame:
  assumes "generate_images env st pt story w = Some r"
  shows "gen_frame w (world_of r)"
  using assms
  by (auto simp: generate_images_def Let_def split: option.splits
           intro: for_each_frame[OF generate_item_frame])

lemma generate_images_v1_frame:
  assumes "generate_images_v1 env st pt story ni nit out w = Some r"
  shows "gen_frame w (world_of r)"
  using assms
  by (auto simp: generate_images_v1_def Let_def split: option.splits
           intro: for_each_frame[OF generate_item_v1_frame])

section \<open>An iteration, step by step\<close>

lemma decodable_simps [simp]: "decodable (Base64 b)" "\<not> decodable (Malformed t)"
  by (simp_all add: decodable_def)

lemma save_images_good:
  "list_all decodable imgs \<Longrightarrow>
     \<exists>w'. save_images d item it idx imgs w = Done w'
          \<and> paused w' = paused w \<and> keyboard_listener w' = keyboard_listener w
          \<and> dirs w' = dirs w \<and> requests w' = requests w \<and> polls w' = polls w
          \<and> (\<exists>ps. trace w' = trace w @ map WriteFile ps \<and> length ps = length imgs)"
proof (induction imgs arbitrary: idx w)
  case Nil show ?case by simp
next
  case (Cons img imgs)
  then obtain b where b: "img = Base64 b" and rest: "list_all decodable imgs"
    by (cases img) auto
  let ?p = "path_join d (item @ ''_'' @ str_int it @ ''_'' @ str_nat (idx + 1) @ ''.png'')"
  from Cons.IH[OF rest, of "Suc idx" "write_file ?p (Bytes b) w"]
  obtain w' ps where w': "save_images d item it (Suc idx) imgs (write_file ?p (Bytes b) w) = Done w'"
    "paused w' = paused w" "keyboard_listener w' = keyboard_listener w"
    "dirs w' = dirs w" "requests w' = requests w" "polls w' = polls w"
    "trace w' = trace w @ map WriteFile (?p # ps)" "length ps = length imgs"
    by auto
  from w'(7,8) have "\<exists>ps. trace w' = trace w @ map WriteFile ps \<and> length ps = length (img # imgs)"
    by (intro exI[of _ "?p # ps"]) simp
  with w'(1-6) b show ?case by simp
qed

lemma save_images_malformed:
  "list_all decodable pre \<Longrightarrow>
     \<exists>w'. save_images d item it idx (pre @ Malformed t # rest) w = Raised BinasciiError w'
          \<and> keyboard_listener w' = keyboard_listener w \<and> requests w' = requests w
          \<and> (\<exists>ps. trace w' = trace w @ map WriteFile ps \<and> length ps = length pre)"
proof (induction pre arbitrary: idx w)
  case Nil show ?case by simp
next
  case (Cons img pre)
  then obtain b where b: "img = Base64 b" and rest: "list_all decodable pre"
    by (cases img) auto
  let ?p = "path_join d (item @ ''_'' @ str_int it @ ''_'' @ str_nat (idx + 1) @ ''.png'')"
  from Cons.IH[OF rest, of "Suc idx" "write_file ?p (Bytes b) w"]
  obtain w' ps where w': "save_images d item it (Suc idx) (pre @ Malformed t # rest) (write_file ?p (Bytes b) w) = Raised BinasciiError w'"
    "keyboard_listener w' = keyboard_listener w" "requests w' = requests w"
    "trace w' = trace w @ map WriteFile (?p # ps)" "length ps = length pre"
    by auto
  from w'(4,5) have "\<exists>ps. trace w' = trace w @ map WriteFile ps \<and> length ps = length (img # pre)"
    by (intro exI[of _ "?p # ps"]) simp
  with w'(1-3) b show ?case by simp
qed

lemma posts_map_WriteFile [simp]: "posts (map WriteFile ps) = []"
  by (induction ps) simp_all

lemma wait_steady:
  assumes "resumable h env" "steady w"
  shows "\<exists>w'. wait_while_paused h env w = Some w' \<and> waited w w' \<and> steady w'"
proof -
  from assms obtain w' where w': "wait_while_paused h env w = Some w'"
    unfolding resumable_def by blast
  from wait_returns[OF w'] have wd: "waited w w'" .
  with assms(2) have "steady w'" unfolding waited_def steady_def by simp
  with w' wd show ?thesis by blast
qed

lemma advanced_refl: "steady w \<Longrightarrow> advanced {} [] w w"
  by (simp add: advanced_def)

lemma advanced_trans:
  "advanced ds pls w w' \<Longrightarrow> advanced ds' pls' w' w'' \<Longrightarrow> advanced (ds \<union> ds') (pls @ pls') w w''"
  unfolding advanced_def by (auto intro: gen_frame_trans)

lemma handle_response_good:
  assumes "resumable h env" "steady w" "good_response resp"
  shows "\<exists>w'. handle_response h env d item it resp w = Some (Done w') \<and> advanced {} [] w w'"
proof (cases resp)
  case (RequestException e)
  have "advanced {} [] w (emit (Log (ErrorGenerating item it e)) w)"
    using assms(2) by (simp add: advanced_def steady_def)
  with RequestException show ?thesis by (simp add: handle_response_def)
next
  case (Response images body)
  with assms(3) obtain imgs where imgs: "images = Some imgs" "list_all decodable imgs"
    by (auto simp: good_response_def split: option.splits)
  let ?w1 = "emit (Log (InfoResponse body)) w"
  from save_images_good[OF imgs(2), of d item it 0 ?w1]
  obtain w2 ps where w2: "save_images d item it 0 imgs ?w1 = Done w2"
    "paused w2 = paused w" "keyboard_listener w2 = keyboard_listener w"
    "dirs w2 = dirs w" "requests w2 = requests w"
    "trace w2 = trace w @ [Log (InfoResponse body)] @ map WriteFile ps"
    by auto
  from w2(2,3) assms(2) have "steady w2" by (simp add: steady_def)
  from wait_steady[OF assms(1) this] obtain w3 where
    w3: "wait_while_paused h env w2 = Some w3" "waited w2 w3" "steady w3" by blast
  have r: "handle_response h env d item it resp w = Some (Done w3)"
    using Response imgs(1) w2(1) w3(1) by (simp add: handle_response_def)
  from handle_response_frame[OF r] have "gen_frame w w3" by simp
  moreover from w3(2) w2 have "dirs w3 = dirs w" "requests w3 = requests w"
    "posts (trace w3) = posts (trace w)"
    unfolding waited_def by auto
  ultimately have "advanced {} [] w w3" using w3(3) by (simp add: advanced_def)
  with r show ?thesis by blast
qed

lemma iteration_body_good:
  assumes "resumable h env" "steady w"
    and "lora_prompt st (dict_get data ''Positive prompt'' (JStr [])) = Inr prompt"
    and "\<And>n pl. good_response (post env n pl)"
  shows "\<exists>w'. iteration_body h env st item_dir item data ni sd it w = Some (Done w')
           \<and> advanced {path_join item_dir (''Iteration_'' @ str_int it)}
                [build_payload st prompt (dict_get data ''Negative prompt'' (JStr [])) sd ni] w w'"
proof -
  let ?d = "path_join item_dir (''Iteration_'' @ str_int it)"
  let ?pl = "build_payload st prompt (dict_get data ''Negative prompt'' (JStr [])) sd ni"
  let ?w1 = "makedirs ?d w"
  from assms(2) have "steady ?w1" by (simp add: steady_def)
  from wait_steady[OF assms(1) this] obtain w2 where
    w2: "wait_while_paused h env ?w1 = Some w2" "waited ?w1 w2" "steady w2" by blast
  let ?w3 = "emit (Log (InfoPayload ?pl)) (emit (Log (InfoGenerating item it)) w2)"
  let ?sent = "http_post env (api_endpoint st @ ''/sdapi/v1/txt2img'') ?pl ?w3"
  from w2(3) have s4: "steady (snd ?sent)" by (simp add: steady_def)
  have g: "good_response (fst ?sent)" using assms(4) by simp
  from handle_response_good[OF assms(1) s4 g, of ?d item it]
  obtain w' where w': "handle_response h env ?d item it (fst ?sent) (snd ?sent) = Some (Done w')"
    "advanced {} [] (snd ?sent) w'" by blast
  have r: "iteration_body h env st item_dir item data ni sd it w = Some (Done w')"
    using assms(3) w2(1) w'(1) by (simp add: iteration_body_def send_request_def Let_def)
  from iteration_body_frame[OF r] have "gen_frame w w'" by simp
  moreover from w'(2) w2(2) have "steady w'" "dirs w' = insert ?d (dirs w)"
    "requests w' = Suc (requests w)" "posts (trace w') = posts (trace w) @ [?pl]"
    unfolding advanced_def waited_def by auto
  ultimately have "advanced {?d} [?pl] w w'" by (simp add: advanced_def)
  with r show ?thesis by blast
qed

lemma for_each_iterations_good:
  assumes "resumable h env"
    and "lora_prompt st (dict_get data ''Positive prompt'' (JStr [])) = Inr prompt"
    and "\<And>n pl. good_response (post env n pl)"
  shows "steady w \<Longrightarrow>
         \<exists>w'. for_each (iteration_body h env st item_dir item data ni sd) its w = Some (Done w')
           \<and> advanced ((\<lambda>i. path_join item_dir (''Iteration_'' @ str_int i)) ` set its)
                (replicate (length its)
                   (build_payload st prompt (dict_get data ''Negative prompt'' (JStr [])) sd ni)) w w'"
proof (induction its arbitrary: w)
  case Nil thus ?case by (simp add: advanced_refl)
next
  case (Cons i its)
  from iteration_body_good[OF assms(1) Cons.prems assms(2,3), of item_dir item ni sd i]
  obtain w1 where w1: "iteration_body h env st item_dir item data ni sd i w = Some (Done w1)"
    "advanced {path_join item_dir (''Iteration_'' @ str_int i)}
       [build_payload st prompt (dict_get data ''Negative prompt'' (JStr [])) sd ni] w w1"
    by blast
  hence "steady w1" by (simp add: advanced_def)
  from Cons.IH[OF this] obtain w' where
    w': "for_each (iteration_body h env st item_dir item data ni sd) its w1 = Some (Done w')"
    "advanced ((\<lambda>i. path_join item_dir (''Iteration_'' @ str_int i)) ` set its)
                (replicate (length its)
                   (build_payload st prompt (dict_get data ''Negative prompt'' (JStr [])) sd ni)) w1 w'"
    by blast
  from advanced_trans[OF w1(2) w'(2)] w1(1) w'(1) show ?case by simp
qed

section \<open>Items and the batch loop\<close>

lemma not_png_prompt_path: "\<not> suffix ''.png'' (path_join d ''prompt.json'')"
proof
  assume a: "suffix ''.png'' (path_join d ''prompt.json'')"
  have b: "suffix ''prompt.json'' (path_join d ''prompt.json'')" by (rule suffix_path_join)
  from suffix_same_cases[OF a b] show False
    by (simp add: suffix_to_prefix)
qed

lemma load_descriptor_frame:
  assumes "gen_frame w w'" "load_descriptor w (path_join d ''prompt.json'') = Inr data"
  shows "load_descriptor w' (path_join d ''prompt.json'') = Inr data"
proof -
  from assms(1) not_png_prompt_path[of d]
  have "files w' (path_join d ''prompt.json'') = files w (path_join d ''prompt.json'')"
    unfolding gen_frame_def by blast
  with assms(2) show ?thesis
    by (auto simp: load_descriptor_def split: option.splits file_content.splits if_splits)
qed

lemma item_ready_frame:
  assumes "gen_frame w w'" "item_ready st w base item"
  shows "item_ready st w' base item \<and> iterations_of w' base item = iterations_of w base item"
proof -
  from assms(2) obtain data where
    d: "load_descriptor w (path_join (path_join base item) ''prompt.json'') = Inr data"
    by (auto simp: item_ready_def split: sum.splits)
  from load_descriptor_frame[OF assms(1) d] d assms(2) show ?thesis
    by (simp add: item_ready_def iterations_of_def)
qed

lemma succeeds_Inr: "succeeds r \<Longrightarrow> \<exists>v. r = Inr v"
  by (cases r) (simp_all add: succeeds_def)

lemma generate_item_good:
  assumes "resumable on_press env" "steady w"
    and "load_descriptor w (path_join (path_join base item) ''prompt.json'') = Inr data"
    and "py_int (dict_get data ''Number of Images'' (JInt 1)) = Inr ni"
    and "py_int (dict_get data ''Number of Iterations'' (JInt 1)) = Inr n"
    and "py_int (dict_get data ''Seed'' (JInt (seed st))) = Inr sd"
    and "lora_prompt st (dict_get data ''Positive prompt'' (JStr [])) = Inr prompt"
    and "\<And>k pl. good_response (post env k pl)"
  shows "\<exists>w'. generate_item env st base item w = Some (Done w')
           \<and> advanced ((\<lambda>i. path_join (path_join base item) (''Iteration_'' @ str_int i)) ` {1..n})
                (replicate (nat n)
                   (build_payload st prompt (dict_get data ''Negative prompt'' (JStr [])) sd ni)) w w'"
proof -
  from for_each_iterations_good[OF assms(1,7,8) assms(2), of "path_join base item" item ni sd "[1..n]"]
  show ?thesis using assms(3-6) by (simp add: generate_item_def Let_def)
qed

lemma generate_item_v1_good:
  assumes "resumable on_press_v1 env" "steady w"
    and "load_descriptor w (path_join (path_join base item) ''prompt.json'') = Inr data"
    and "py_int (dict_get data ''Seed'' (JInt (seed st))) = Inr sd"
    and "lora_prompt st (dict_get data ''Positive prompt'' (JStr [])) = Inr prompt"
    and "\<And>k pl. good_response (post env k pl)"
  shows "\<exists>w'. generate_item_v1 env st ni n base item w = Some (Done w')
           \<and> advanced ((\<lambda>i. path_join (path_join base item) (''Iteration_'' @ str_int i)) ` {1..n})
                (replicate (nat n)
                   (build_payload st prompt (dict_get data ''Negative prompt'' (JStr [])) sd ni)) w w'"
proof -
  from assms(3) have "path_exists w (path_join (path_join base item) ''prompt.json'')"
    by (auto simp: load_descriptor_def path_exists_def split: option.splits if_splits)
  with for_each_iterations_good[OF assms(1,5,6) assms(2), of "path_join base item" item ni sd "[1..n]"]
  show ?thesis using assms(3,4) by (simp add: generate_item_v1_def Let_def)
qed

lemma for_each_items_good:
  assumes "resumable on_press env" "\<And>k pl. good_response (post env k pl)"
  shows "steady w1 \<Longrightarrow> gen_frame w w1 \<Longrightarrow> \<forall>item\<in>set items. item_ready st w base item \<Longrightarrow>
         \<exists>w'. for_each (generate_item env st base) items w1 = Some (Done w')
           \<and> steady w' \<and> gen_frame w1 w'
           \<and> requests w' = requests w1 + sum_list (map (iterations_of w base) items)"
proof (induction items arbitrary: w1)
  case Nil thus ?case by simp
next
  case (Cons item items)
  from Cons.prems(3) have rdy: "item_ready st w base item" by simp
  from item_ready_frame[OF Cons.prems(2) rdy]
  have rdy1: "item_ready st w1 base item" and it1: "iterations_of w1 base item = iterations_of w base item"
    by simp_all
  from rdy1 obtain data where
    d: "load_descriptor w1 (path_join (path_join base item) ''prompt.json'') = Inr data"
    and dr: "descriptor_ready st data"
    by (auto simp: item_ready_def split: sum.splits)
  from dr obtain ni n sd prompt where
    v: "py_int (dict_get data ''Number of Images'' (JInt 1)) = Inr ni"
       "py_int (dict_get data ''Number of Iterations'' (JInt 1)) = Inr n"
       "py_int (dict_get data ''Seed'' (JInt (seed st))) = Inr sd"
       "lora_prompt st (dict_get data ''Positive prompt'' (JStr [])) = Inr prompt"
    unfolding descriptor_ready_def by (blast dest: succeeds_Inr)
  from generate_item_good[OF assms(1) Cons.prems(1) d v assms(2)]
  obtain w2 where w2: "generate_item env st base item w1 = Some (Done w2)"
    "steady w2" "gen_frame w1 w2" "requests w2 = requests w1 + nat n"
    unfolding advanced_def by auto
  from d v(2) have "iterations_of w1 base item = nat n" by (simp add: iterations_of_def)
  with it1 w2(4) have req: "requests w2 = requests w1 + iterations_of w base item" by simp
  from Cons.prems(3) have "\<forall>item\<in>set items. item_ready st w base item" by simp
  from Cons.IH[OF w2(2) gen_frame_trans[OF Cons.prems(2) w2(3)] this]
  obtain w' where w': "for_each (generate_item env st base) items w2 = Some (Done w')"
    "steady w'" "gen_frame w2 w'"
    "requests w' = requests w2 + sum_list (map (iterations_of w base) items)"
    by blast
  from w2(1) w'(1) have "for_each (generate_item env st base) (item # items) w1 = Some (Done w')"
    by simp
  moreover from gen_frame_trans[OF w2(3) w'(3)] have "gen_frame w1 w'" .
  moreover from req w'(4) have "requests w' = requests w1 + sum_list (map (iterations_of w base) (item # items))"
    by simp
  ultimately show ?case using w'(2) by blast
qed

lemma generate_images_good:
  assumes "resumable on_press env" "\<And>k pl. good_response (post env k pl)" "steady w"
    and "listdir env (path_join story (type_dir pt)) = Some items"
    and "\<forall>item\<in>set items. item_ready st w (path_join story (type_dir pt)) item"
  shows "\<exists>w'. generate_images env st pt story w = Some (Done w')
           \<and> steady w' \<and> gen_frame w w'
           \<and> requests w' = requests w
                + sum_list (map (iterations_of w (path_join story (type_dir pt))) items)"
  using for_each_items_good[OF assms(1,2) assms(3) gen_frame_refl assms(5)] assms(4)
  by (simp add: generate_images_def Let_def)

lemma resumable_no_keys:
  assumes "\<And>k. key_events env k = []"
  shows "resumable h env"
  unfolding resumable_def
proof (intro allI impI)
  fix w assume "steady w"
  with assms have "\<not> paused (read_paused h env w)"
    by (simp add: read_paused_def steady_def Let_def)
  thus "wait_while_paused h env w \<noteq> None"
    by (subst wait_while_paused.simps) simp
qed

lemma iteration_body_failure:
  assumes "resumable h env" "steady w"
    and "lora_prompt st (dict_get data ''Positive prompt'' (JStr [])) = Inr prompt"
    and "post env (requests w)
           (build_payload st prompt (dict_get data ''Negative prompt'' (JStr [])) sd ni)
         = RequestException e"
  shows "\<exists>w'. iteration_body h env st item_dir item data ni sd it w = Some (Done w')
           \<and> files w' = files w
           \<and> last (trace w') = Log (ErrorGenerating item it e)
           \<and> requests w' = Suc (requests w)"
proof -
  let ?d = "path_join item_dir (''Iteration_'' @ str_int it)"
  let ?pl = "build_payload st prompt (dict_get data ''Negative prompt'' (JStr [])) sd ni"
  from assms(2) have "steady (makedirs ?d w)" by (simp add: steady_def)
  from wait_steady[OF assms(1) this] obtain w2 where
    w2: "wait_while_paused h env (makedirs ?d w) = Some w2" "waited (makedirs ?d w) w2" by blast
  hence eq: "requests w2 = requests w" "files w2 = files w" by (simp_all add: waited_def)
  let ?w3 = "emit (Log (InfoPayload ?pl)) (emit (Log (InfoGenerating item it)) w2)"
  let ?sent = "http_post env (api_endpoint st @ ''/sdapi/v1/txt2img'') ?pl ?w3"
  let ?w' = "emit (Log (ErrorGenerating item it e)) (snd ?sent)"
  from assms(4) eq have "fst ?sent = RequestException e" by simp
  hence "handle_response h env ?d item it (fst ?sent) (snd ?sent) = Some (Done ?w')"
    by (simp add: handle_response_def)
  with assms(3) w2(1) have "iteration_body h env st item_dir item data ni sd it w = Some (Done ?w')"
    by (simp add: iteration_body_def send_request_def Let_def)
  moreover have "files ?w' = files w" "last (trace ?w') = Log (ErrorGenerating item it e)"
    "requests ?w' = Suc (requests w)" using eq by simp_all
  ultimately show ?thesis by blast
qed

lemma item_ready_v1_frame:
  assumes "gen_frame w w'" "item_ready_v1 st w base item"
  shows "item_ready_v1 st w' base item"
proof -
  from assms(2) obtain data where
    d: "load_descriptor w (path_join (path_join base item) ''prompt.json'') = Inr data"
    by (auto simp: item_ready_v1_def split: sum.splits)
  from load_descriptor_frame[OF assms(1) d] d assms(2) show ?thesis
    by (simp add: item_ready_v1_def)
qed

lemma for_each_items_good_v1:
  assumes "resumable on_press_v1 env" "\<And>k pl. good_response (post env k pl)"
  shows "steady w1 \<Longrightarrow> gen_frame w w1 \<Longrightarrow> \<forall>item\<in>set items. item_ready_v1 st w base item \<Longrightarrow>
         \<exists>w'. for_each (generate_item_v1 env st ni n base) items w1 = Some (Done w')
           \<and> steady w' \<and> gen_frame w1 w'
           \<and> requests w' = requests w1 + length items * nat n"
proof (induction items arbitrary: w1)
  case Nil thus ?case by simp
next
  case (Cons item items)
  from Cons.prems(3) have rdy: "item_ready_v1 st w base item" by simp
  from item_ready_v1_frame[OF Cons.prems(2) rdy] obtain data where
    d: "load_descriptor w1 (path_join (path_join base item) ''prompt.json'') = Inr data"
    and dr: "succeeds (py_int (dict_get data ''Seed'' (JInt (seed st))))"
            "succeeds (lora_prompt st (dict_get data ''Positive prompt'' (JStr [])))"
    by (auto simp: item_ready_v1_def split: sum.splits)
  from dr obtain sd prompt where
    v: "py_int (dict_get data ''Seed'' (JInt (seed st))) = Inr sd"
       "lora_prompt st (dict_get data ''Positive prompt'' (JStr [])) = Inr prompt"
    by (blast dest: succeeds_Inr)
  from generate_item_v1_good[OF assms(1) Cons.prems(1) d v assms(2), where ni=ni and n=n]
  obtain w2 where w2: "generate_item_v1 env st ni n base item w1 = Some (Done w2)"
    "steady w2" "gen_frame w1 w2" "requests w2 = requests w1 + nat n"
    unfolding advanced_def by auto
  from Cons.prems(3) have "\<forall>item\<in>set items. item_ready_v1 st w base item" by simp
  from Cons.IH[OF w2(2) gen_frame_trans[OF Cons.prems(2) w2(3)] this]
  obtain w' where w': "for_each (generate_item_v1 env st ni n base) items w2 = Some (Done w')"
    "steady w'" "gen_frame w2 w'"
    "requests w' = requests w2 + length items * nat n"
    by blast
  from w2(1) w'(1) have "for_each (generate_item_v1 env st ni n base) (item # items) w1 = Some (Done w')"
    by simp
  moreover from gen_frame_trans[OF w2(3) w'(3)] have "gen_frame w1 w'" .
  moreover from w2(4) w'(4) have "requests w' = requests w1 + length (item # items) * nat n"
    by simp
  ultimately show ?case using w'(2) by blast
qed

lemma generate_images_v1_good:
  assumes "resumable on_press_v1 env" "\<And>k pl. good_response (post env k pl)" "steady w"
    and "listdir env (path_join (path_join out story) (type_dir pt)) = Some items"
    and "\<forall>item\<in>set items. item_ready_v1 st w (path_join (path_join out story) (type_dir pt)) item"
  shows "\<exists>w'. generate_images_v1 env st pt story ni n out w = Some (Done w')
           \<and> steady w' \<and> gen_frame w w'
           \<and> requests w' = requests w + length items * nat n"
  using for_each_items_good_v1[OF assms(1,2) assms(3) gen_frame_refl assms(5)] assms(4)
  by (simp add: generate_images_v1_def Let_def)


section \<open>Materializing a record\<close>

lemma map_of_without_name:
  "map_of (map (\<lambda>(k, v). (k, JStr v)) (filter (\<lambda>(k, v). k \<noteq> ''Name'') data)) k
     = (if k = ''Name'' then None else map_option JStr (map_of data k))"
  by (induction data) auto

lemma keys_without_name:
  "fst ` set (map (\<lambda>(k, v). (k, JStr v)) (filter (\<lambda>(k, v). k \<noteq> ''Name'') data))
     = fst ` set data - {''Name''}"
  by (induction data) auto

lemma map_of_descriptor_of:
  "map_of (descriptor_of data ni nit ds) k =
     (if k = ''Seed'' then Some (JInt ds)
      else if k = ''Number of Iterations'' then Some (JInt nit)
      else if k = ''Number of Images'' then Some (JInt ni)
      else if k = ''Name'' then None
      else map_option JStr (map_of data k))"
  by (simp add: descriptor_of_def update_conv' map_of_without_name)

lemma keys_update3:
  assumes "fst ` set al = A"
  shows "fst ` set (AList.update a x (AList.update b y (AList.update c z al))) = A \<union> {c, b, a}"
  using assms by (auto simp add: dom_update)

lemma keys_descriptor_of:
  "fst ` set (descriptor_of data ni nit ds)
     = (fst ` set data - {''Name''}) \<union> {''Number of Images'', ''Number of Iterations'', ''Seed''}"
  unfolding descriptor_of_def by (rule keys_update3[OF keys_without_name])

lemma materialize_writes:
  "materialize base ni nit ds (jf, w) data = (jf', w') \<Longrightarrow>
     path_join base (item_name_of data) \<in> dirs w'
     \<and> files w' (path_join (path_join base (item_name_of data)) ''prompt.json'')
         = Some (JsonObject (descriptor_of data ni nit ds))"
  by (auto simp: materialize_def Let_def)

lemma generate_json_files_last:
  "path_join (path_join story (type_dir pt)) (item_name_of data)
     \<in> dirs (snd (generate_json_files (prompts @ [data]) pt story ds w))
   \<and> files (snd (generate_json_files (prompts @ [data]) pt story ds w))
       (path_join (path_join (path_join story (type_dir pt)) (item_name_of data)) ''prompt.json'')
     = Some (JsonObject (descriptor_of data 1 1 ds))"
proof -
  let ?base = "path_join story (type_dir pt)"
  obtain jf w1 where p: "foldl (materialize ?base 1 1 ds) ([], makedirs ?base w) prompts = (jf, w1)"
    by (cases "foldl (materialize ?base 1 1 ds) ([], makedirs ?base w) prompts")
  obtain jf' w' where m: "materialize ?base 1 1 ds (jf, w1) data = (jf', w')"
    by (cases "materialize ?base 1 1 ds (jf, w1) data")
  from p m have "snd (generate_json_files (prompts @ [data]) pt story ds w) = w'"
    by (simp add: generate_json_files_def Let_def)
  with materialize_writes[OF m] show ?thesis by simp
qed

lemma generate_json_files_v1_last:
  "path_join (path_join (path_join out story) (type_dir pt)) (item_name_of data)
     \<in> dirs (snd (generate_json_files_v1 (prompts @ [data]) pt story ds ni nit out w))
   \<and> files (snd (generate_json_files_v1 (prompts @ [data]) pt story ds ni nit out w))
       (path_join (path_join (path_join (path_join out story) (type_dir pt)) (item_name_of data))
          ''prompt.json'')
     = Some (JsonObject (descriptor_of data ni nit ds))"
proof -
  let ?base = "path_join (path_join out story) (type_dir pt)"
  obtain jf w1 where p: "foldl (materialize ?base ni nit ds) ([], makedirs ?base w) prompts = (jf, w1)"
    by (cases "foldl (materialize ?base ni nit ds) ([], makedirs ?base w) prompts")
  obtain jf' w' where m: "materialize ?base ni nit ds (jf, w1) data = (jf', w')"
    by (cases "materialize ?base ni nit ds (jf, w1) data")
  from p m have "snd (generate_json_files_v1 (prompts @ [data]) pt story ds ni nit out w) = w'"
    by (simp add: generate_json_files_v1_def Let_def)
  with materialize_writes[OF m] show ?thesis by simp
qed


section \<open>The claims about the batch loop\<close>

text \<open>
  Claim C2. In every run of the batch loop whose descriptors load, whatever
  requests fail with a \<open>RequestException\<close> (a network error or an error status):
  an iteration whose POST fails logs the error, writes no file and returns to the
  loop; the loop goes on to the next iteration and the next item, so that the run
  ends normally with one request sent for every iteration of every item; and no
  file that was on disk is removed. This holds for \<open>main.py\<close> and \<open>v1.0/main.py\<close>.
\<close>

theorem request_failure_continues:
  assumes "resumable handler env" "steady w" "\<And>k pl. good_response (post env k pl)"
  shows "(lora_prompt st (dict_get data ''Positive prompt'' (JStr [])) = Inr prompt
          \<and> post env (requests w)
               (build_payload st prompt (dict_get data ''Negative prompt'' (JStr [])) sd ni)
             = RequestException e
          \<longrightarrow> (\<exists>w'. iteration_body handler env st item_dir item data ni sd it w = Some (Done w')
                 \<and> files w' = files w
                 \<and> last (trace w') = Log (ErrorGenerating item it e)
                 \<and> requests w' = Suc (requests w)))
       \<and> (handler = on_press
          \<and> listdir env (path_join story (type_dir pt)) = Some items
          \<and> (\<forall>i\<in>set items. item_ready st w (path_join story (type_dir pt)) i)
          \<longrightarrow> (\<exists>w'. generate_images env st pt story w = Some (Done w')
                 \<and> dom (files w) \<subseteq> dom (files w')
                 \<and> requests w' = requests w
                      + sum_list (map (iterations_of w (path_join story (type_dir pt))) items)))
       \<and> (handler = on_press_v1
          \<and> listdir env (path_join (path_join out story) (type_dir pt)) = Some items
          \<and> (\<forall>i\<in>set items. item_ready_v1 st w (path_join (path_join out story) (type_dir pt)) i)
          \<longrightarrow> (\<exists>w'. generate_images_v1 env st pt story ni n out w = Some (Done w')
                 \<and> dom (files w) \<subseteq> dom (files w')
                 \<and> requests w' = requests w + length items * nat n))"
proof (intro conjI impI)
  assume "lora_prompt st (dict_get data ''Positive prompt'' (JStr [])) = Inr prompt
          \<and> post env (requests w)
               (build_payload st prompt (dict_get data ''Negative prompt'' (JStr [])) sd ni)
             = RequestException e"
  thus "\<exists>w'. iteration_body handler env st item_dir item data ni sd it w = Some (Done w')
                 \<and> files w' = files w
                 \<and> last (trace w') = Log (ErrorGenerating item it e)
                 \<and> requests w' = Suc (requests w)"
    using iteration_body_failure[OF assms(1,2)] by blast
next
  assume a: "handler = on_press
          \<and> listdir env (path_join story (type_dir pt)) = Some items
          \<and> (\<forall>i\<in>set items. item_ready st w (path_join story (type_dir pt)) i)"
  with assms(1) have r: "resumable on_press env" by simp
  from generate_images_good[OF r assms(3) assms(2)] a
  obtain w' where "generate_images env st pt story w = Some (Done w')" "gen_frame w w'"
    "requests w' = requests w
                      + sum_list (map (iterations_of w (path_join story (type_dir pt))) items)"
    by blast
  thus "\<exists>w'. generate_images env st pt story w = Some (Done w')
                 \<and> dom (files w) \<subseteq> dom (files w')
                 \<and> requests w' = requests w
                      + sum_list (map (iterations_of w (path_join story (type_dir pt))) items)"
    unfolding gen_frame_def by blast
next
  assume a: "handler = on_press_v1
          \<and> listdir env (path_join (path_join out story) (type_dir pt)) = Some items
          \<and> (\<forall>i\<in>set items. item_ready_v1 st w (path_join (path_join out story) (type_dir pt)) i)"
  with assms(1) have r: "resumable on_press_v1 env" by simp
  from generate_images_v1_good[OF r assms(3) assms(2)] a
  obtain w' where "generate_images_v1 env st pt story ni n out w = Some (Done w')" "gen_frame w w'"
    "requests w' = requests w + length items * nat n"
    by blast
  thus "\<exists>w'. generate_images_v1 env st pt story ni n out w = Some (Done w')
                 \<and> dom (files w) \<subseteq> dom (files w')
                 \<and> requests w' = requests w + length items * nat n"
    unfolding gen_frame_def by blast
qed

theorem request_failure_continues_witness:
  "resumable on_press demo_env \<and> resumable on_press_v1 demo_env \<and> steady demo_world
   \<and> (\<forall>k pl. good_response (post demo_env k pl))
   \<and> post demo_env (requests demo_world)
        (build_payload demo_settings (JStr []) (dict_get [] ''Negative prompt'' (JStr [])) 7 1)
      = RequestException ''timeout''
   \<and> (\<exists>w'. iteration_body on_press demo_env demo_settings ''S/Characters/A'' ''A'' [] 1 7 1 demo_world
               = Some (Done w')
            \<and> files w' = files demo_world
            \<and> last (trace w') = Log (ErrorGenerating ''A'' 1 ''timeout'')
            \<and> requests w' = Suc (requests demo_world))
   \<and> listdir demo_env (path_join ''S'' (type_dir Character)) = Some [''A'', ''B'']
   \<and> item_ready demo_settings demo_world (path_join ''S'' (type_dir Character)) ''A''
   \<and> item_ready demo_settings demo_world (path_join ''S'' (type_dir Character)) ''B''
   \<and> (\<exists>w'. generate_images demo_env demo_settings Character ''S'' demo_world = Some (Done w')
            \<and> dom (files demo_world) \<subseteq> dom (files w')
            \<and> requests w' = 3)
   \<and> (\<exists>w'. generate_images_v1 demo_env demo_settings Character ''S'' 1 2 [] demo_world
               = Some (Done w')
            \<and> dom (files demo_world) \<subseteq> dom (files w')
            \<and> requests w' = 4)"
proof -
  have r: "resumable on_press demo_env" and r1: "resumable on_press_v1 demo_env"
    by (rule resumable_no_keys, simp add: demo_env_def)+
  have s: "steady demo_world" by (simp add: steady_def demo_world_def)
  have g: "\<And>k pl. good_response (post demo_env k pl)"
    by (simp add: demo_env_def good_response_def)
  have l: "lora_prompt demo_settings (dict_get [] ''Positive prompt'' (JStr [])) = Inr (JStr [])"
    by (simp add: lora_prompt_def demo_settings_def dict_get_def)
  have p: "post demo_env (requests demo_world)
        (build_payload demo_settings (JStr []) (dict_get [] ''Negative prompt'' (JStr [])) 7 1)
      = RequestException ''timeout''"
    by (simp add: demo_env_def demo_world_def)
  have b: "path_join ''S'' (type_dir Character) = ''S/Characters''"
          "path_join (path_join [] ''S'') (type_dir Character) = ''S/Characters''"
    by (simp_all add: path_join_def type_dir_def)
  have ld: "listdir demo_env ''S/Characters'' = Some [''A'', ''B'']"
    by (simp add: demo_env_def)
  have ra: "item_ready demo_settings demo_world ''S/Characters'' ''A''"
    and rb: "item_ready demo_settings demo_world ''S/Characters'' ''B''"
    and ra1: "item_ready_v1 demo_settings demo_world ''S/Characters'' ''A''"
    and rb1: "item_ready_v1 demo_settings demo_world ''S/Characters'' ''B''"
    by code_simp+
  have n: "iterations_of demo_world ''S/Characters'' ''A'' = 2"
          "iterations_of demo_world ''S/Characters'' ''B'' = 1"
    by code_simp+
  note T = request_failure_continues[OF r s g, where st = demo_settings and data = "[]"
             and prompt = "JStr []" and sd = 7 and ni = 1 and e = "''timeout''"
             and item_dir = "''S/Characters/A''" and item = "''A''" and it = 1
             and story = "''S''" and pt = Character and items = "[''A'', ''B'']"]
  from T l p have A: "\<exists>w'. iteration_body on_press demo_env demo_settings ''S/Characters/A'' ''A'' [] 1 7 1 demo_world
               = Some (Done w')
            \<and> files w' = files demo_world
            \<and> last (trace w') = Log (ErrorGenerating ''A'' 1 ''timeout'')
            \<and> requests w' = Suc (requests demo_world)"
    by blast
  from T b ld ra rb n have B: "\<exists>w'. generate_images demo_env demo_settings Character ''S'' demo_world = Some (Done w')
            \<and> dom (files demo_world) \<subseteq> dom (files w')
            \<and> requests w' = 3"
    by (simp add: demo_world_def)
  note T1 = request_failure_continues[OF r1 s g, where st = demo_settings
             and story = "''S''" and pt = Character and items = "[''A'', ''B'']"
             and out = "[]" and ni = 1 and n = 2]
  from T1 b ld ra1 rb1 have C: "\<exists>w'. generate_images_v1 demo_env demo_settings Character ''S'' 1 2 [] demo_world
               = Some (Done w')
            \<and> dom (files demo_world) \<subseteq> dom (files w')
            \<and> requests w' = 4"
    by (simp add: demo_world_def)
  from r r1 s g p A b ld ra rb B C show ?thesis by simp
qed

text \<open>
  Claim C1, as it is worded, for \<open>v1.0/main.py\<close>: the descriptor of \<open>A\<close> was edited
  to three iterations and two images, and the loop, run with one iteration and one
  image for the run, makes one iteration directory and asks for one image.
\<close>

theorem descriptor_counts_ignored_v1_counterexample:
  "load_descriptor edited_world ''S/Characters/A/prompt.json''
     = Inr [(''Number of Images'', JInt 2), (''Number of Iterations'', JInt 3), (''Seed'', JInt 7)]
   \<and> map_option (\<lambda>r. dirs (world_of r))
         (generate_images_v1 demo_env demo_settings Character ''S'' 1 1 [] edited_world)
       = Some {''S/Characters/A/Iteration_1''}
   \<and> map_option (\<lambda>r. map (\<lambda>pl. (p_n_iter pl, p_seed pl)) (posts (trace (world_of r))))
         (generate_images_v1 demo_env demo_settings Character ''S'' 1 1 [] edited_world)
       = Some [(1, 7)]"
  by code_simp

text \<open>
  Claim C1, amended. For every item whose descriptor loads: in \<open>main.py\<close> the loop
  takes the number of iterations, the number of images per request and the seed
  from the fields \<open>Number of Iterations\<close>, \<open>Number of Images\<close> and \<open>Seed\<close> of the
  descriptor (1, 1 and the seed of the settings when the field is absent): with
  \<open>n\<close> iterations it makes exactly the directories \<open>Iteration_1\<close> .. \<open>Iteration_n\<close>
  and sends \<open>n\<close> requests, each with this image count and this seed. In
  \<open>v1.0/main.py\<close> the seed comes from the descriptor in the same way, and the
  numbers of iterations and images are the values given to \<open>generate_images\<close> for
  the whole run.
\<close>

theorem descriptor_overrides:
  assumes "resumable handler env" "steady w" "\<And>k pl. good_response (post env k pl)"
    and "load_descriptor w (path_join (path_join base item) ''prompt.json'') = Inr data"
    and "py_int (dict_get data ''Seed'' (JInt (seed st))) = Inr sd"
    and "lora_prompt st (dict_get data ''Positive prompt'' (JStr [])) = Inr prompt"
  shows "(handler = on_press
          \<and> py_int (dict_get data ''Number of Images'' (JInt 1)) = Inr ni
          \<and> py_int (dict_get data ''Number of Iterations'' (JInt 1)) = Inr n
          \<longrightarrow> (\<exists>w'. generate_item env st base item w = Some (Done w')
                 \<and> dirs w' = dirs w
                     \<union> (\<lambda>i. path_join (path_join base item) (''Iteration_'' @ str_int i)) ` {1..n}
                 \<and> posts (trace w') = posts (trace w)
                     @ replicate (nat n)
                         (build_payload st prompt (dict_get data ''Negative prompt'' (JStr [])) sd ni)))
       \<and> (handler = on_press_v1
          \<longrightarrow> (\<exists>w'. generate_item_v1 env st num_images num_iterations base item w = Some (Done w')
                 \<and> dirs w' = dirs w
                     \<union> (\<lambda>i. path_join (path_join base item) (''Iteration_'' @ str_int i))
                          ` {1..num_iterations}
                 \<and> posts (trace w') = posts (trace w)
                     @ replicate (nat num_iterations)
                         (build_payload st prompt (dict_get data ''Negative prompt'' (JStr [])) sd
                            num_images)))
       \<and> p_n_iter (build_payload st prompt (dict_get data ''Negative prompt'' (JStr [])) sd ni) = ni
       \<and> p_seed (build_payload st prompt (dict_get data ''Negative prompt'' (JStr [])) sd ni) = sd
       \<and> (map_of data ''Seed'' = None \<longrightarrow> sd = seed st)
       \<and> (\<forall>v. map_of data ''Seed'' = Some v \<longrightarrow> py_int v = Inr sd)"
proof (intro conjI impI allI)
  assume a: "handler = on_press
          \<and> py_int (dict_get data ''Number of Images'' (JInt 1)) = Inr ni
          \<and> py_int (dict_get data ''Number of Iterations'' (JInt 1)) = Inr n"
  with assms(1) have r: "resumable on_press env" by simp
  from a have v: "py_int (dict_get data ''Number of Images'' (JInt 1)) = Inr ni"
    "py_int (dict_get data ''Number of Iterations'' (JInt 1)) = Inr n" by simp_all
  from generate_item_good[OF r assms(2,4) v assms(5,6,3)]
  show "\<exists>w'. generate_item env st base item w = Some (Done w')
                 \<and> dirs w' = dirs w
                     \<union> (\<lambda>i. path_join (path_join base item) (''Iteration_'' @ str_int i)) ` {1..n}
                 \<and> posts (trace w') = posts (trace w)
                     @ replicate (nat n)
                         (build_payload st prompt (dict_get data ''Negative prompt'' (JStr [])) sd ni)"
    unfolding advanced_def by blast
next
  assume "handler = on_press_v1"
  with assms(1) have r: "resumable on_press_v1 env" by simp
  from generate_item_v1_good[OF r assms(2,4,5,6,3), where ni = num_images and n = num_iterations]
  show "\<exists>w'. generate_item_v1 env st num_images num_iterations base item w = Some (Done w')
                 \<and> dirs w' = dirs w
                     \<union> (\<lambda>i. path_join (path_join base item) (''Iteration_'' @ str_int i))
                          ` {1..num_iterations}
                 \<and> posts (trace w') = posts (trace w)
                     @ replicate (nat num_iterations)
                         (build_payload st prompt (dict_get data ''Negative prompt'' (JStr [])) sd
                            num_images)"
    unfolding advanced_def by blast
next
  show "p_n_iter (build_payload st prompt (dict_get data ''Negative prompt'' (JStr [])) sd ni) = ni"
    by (simp add: build_payload_def)
next
  show "p_seed (build_payload st prompt (dict_get data ''Negative prompt'' (JStr [])) sd ni) = sd"
    by (simp add: build_payload_def)
next
  assume "map_of data ''Seed'' = None"
  with assms(5) show "sd = seed st" by (simp add: dict_get_def)
next
  fix v assume "map_of data ''Seed'' = Some v"
  with assms(5) show "py_int v = Inr sd" by (simp add: dict_get_def)
qed

theorem descriptor_overrides_witness:
  "resumable on_press demo_env \<and> resumable on_press_v1 demo_env \<and> steady edited_world
   \<and> (\<forall>k pl. good_response (post demo_env k pl))
   \<and> load_descriptor edited_world (path_join (path_join ''S/Characters'' ''A'') ''prompt.json'')
       = Inr [(''Number of Images'', JInt 2), (''Number of Iterations'', JInt 3), (''Seed'', JInt 7)]
   \<and> (\<exists>w'. generate_item demo_env demo_settings ''S/Characters'' ''A'' edited_world = Some (Done w')
          \<and> dirs w' = {''S/Characters/A/Iteration_1'', ''S/Characters/A/Iteration_2'',
                        ''S/Characters/A/Iteration_3''}
          \<and> map (\<lambda>pl. (p_n_iter pl, p_seed pl)) (posts (trace w')) = [(2, 7), (2, 7), (2, 7)])
   \<and> (\<exists>w'. generate_item_v1 demo_env demo_settings 1 1 ''S/Characters'' ''A'' edited_world
             = Some (Done w')
          \<and> dirs w' = {''S/Characters/A/Iteration_1''}
          \<and> map (\<lambda>pl. (p_n_iter pl, p_seed pl)) (posts (trace w')) = [(1, 7)])"
proof -
  let ?data = "[(''Number of Images'', JInt 2), (''Number of Iterations'', JInt 3), (''Seed'', JInt 7)]"
  have r: "resumable on_press demo_env" and r1: "resumable on_press_v1 demo_env"
    by (rule resumable_no_keys, simp add: demo_env_def)+
  have s: "steady edited_world" by (simp add: steady_def edited_world_def)
  have g: "\<And>k pl. good_response (post demo_env k pl)"
    by (simp add: demo_env_def good_response_def)
  have d: "load_descriptor edited_world (path_join (path_join ''S/Characters'' ''A'') ''prompt.json'')
       = Inr ?data"
    by code_simp
  have v: "py_int (dict_get ?data ''Seed'' (JInt (seed demo_settings))) = Inr 7"
    "py_int (dict_get ?data ''Number of Images'' (JInt 1)) = Inr 2"
    "py_int (dict_get ?data ''Number of Iterations'' (JInt 1)) = Inr 3"
    by (simp_all add: dict_get_def)
  have l: "lora_prompt demo_settings (dict_get ?data ''Positive prompt'' (JStr [])) = Inr (JStr [])"
    by (simp add: lora_prompt_def demo_settings_def dict_get_def)
  have i3: "(\<lambda>i. path_join (path_join ''S/Characters'' ''A'') (''Iteration_'' @ str_int i)) ` {1..3}
            = {''S/Characters/A/Iteration_1'', ''S/Characters/A/Iteration_2'',
               ''S/Characters/A/Iteration_3''}"
    by code_simp
  have i1: "(\<lambda>i. path_join (path_join ''S/Characters'' ''A'') (''Iteration_'' @ str_int i)) ` {1..1}
            = {''S/Characters/A/Iteration_1''}"
    by code_simp
  have e: "dirs edited_world = {}" "posts (trace edited_world) = []"
    by (simp_all add: edited_world_def)
  have gall: "\<forall>k pl. good_response (post demo_env k pl)" using g by (intro allI)
  note T = descriptor_overrides[OF r s g d v(1) l, where ni = 2 and n = 3]
  have "\<exists>w'. generate_item demo_env demo_settings ''S/Characters'' ''A'' edited_world = Some (Done w')
        \<and> dirs w' = dirs edited_world
           \<union> (\<lambda>i. path_join (path_join ''S/Characters'' ''A'') (''Iteration_'' @ str_int i)) ` {1..3}
        \<and> posts (trace w') = posts (trace edited_world)
           @ replicate (nat 3)
               (build_payload demo_settings (JStr []) (dict_get ?data ''Negative prompt'' (JStr [])) 7 2)"
    by (rule T[THEN conjunct1, THEN mp, OF conjI[OF refl conjI[OF v(2) v(3)]]])
  then obtain w' where
    w': "generate_item demo_env demo_settings ''S/Characters'' ''A'' edited_world = Some (Done w')
        \<and> dirs w' = dirs edited_world
           \<union> (\<lambda>i. path_join (path_join ''S/Characters'' ''A'') (''Iteration_'' @ str_int i)) ` {1..3}
        \<and> posts (trace w') = posts (trace edited_world)
           @ replicate (nat 3)
               (build_payload demo_settings (JStr []) (dict_get ?data ''Negative prompt'' (JStr [])) 7 2)"
    ..
  have A1: "dirs w' = {''S/Characters/A/Iteration_1'', ''S/Characters/A/Iteration_2'',
                        ''S/Characters/A/Iteration_3''}"
    using w'[THEN conjunct2, THEN conjunct1] by (simp only: e i3 Un_empty_left)
  have A2: "map (\<lambda>pl. (p_n_iter pl, p_seed pl)) (posts (trace w')) = [(2, 7), (2, 7), (2, 7)]"
    by (simp only: w'[THEN conjunct2, THEN conjunct2] e append_Nil)
       (simp add: build_payload_def numeral_3_eq_3)
  have EA: "\<exists>w'. generate_item demo_env demo_settings ''S/Characters'' ''A'' edited_world = Some (Done w')
          \<and> dirs w' = {''S/Characters/A/Iteration_1'', ''S/Characters/A/Iteration_2'',
                        ''S/Characters/A/Iteration_3''}
          \<and> map (\<lambda>pl. (p_n_iter pl, p_seed pl)) (posts (trace w')) = [(2, 7), (2, 7), (2, 7)]"
    using w'[THEN conjunct1] A1 A2 by (intro exI[of _ w'] conjI)
  note T1 = descriptor_overrides[OF r1 s g d v(1) l, where num_images = 1 and num_iterations = 1]
  have "\<exists>w'. generate_item_v1 demo_env demo_settings 1 1 ''S/Characters'' ''A'' edited_world = Some (Done w')
        \<and> dirs w' = dirs edited_world
           \<union> (\<lambda>i. path_join (path_join ''S/Characters'' ''A'') (''Iteration_'' @ str_int i)) ` {1..1}
        \<and> posts (trace w') = posts (trace edited_world)
           @ replicate (nat 1)
               (build_payload demo_settings (JStr []) (dict_get ?data ''Negative prompt'' (JStr [])) 7 1)"
    by (rule T1[THEN conjunct2, THEN conjunct1, THEN mp, OF refl])
  then obtain w1 where
    w1: "generate_item_v1 demo_env demo_settings 1 1 ''S/Characters'' ''A'' edited_world = Some (Done w1)
        \<and> dirs w1 = dirs edited_world
           \<union> (\<lambda>i. path_join (path_join ''S/Characters'' ''A'') (''Iteration_'' @ str_int i)) ` {1..1}
        \<and> posts (trace w1) = posts (trace edited_world)
           @ replicate (nat 1)
               (build_payload demo_settings (JStr []) (dict_get ?data ''Negative prompt'' (JStr [])) 7 1)"
    ..
  have B1: "dirs w1 = {''S/Characters/A/Iteration_1''}"
    using w1[THEN conjunct2, THEN conjunct1] by (simp only: e i1 Un_empty_left)
  have B2: "map (\<lambda>pl. (p_n_iter pl, p_seed pl)) (posts (trace w1)) = [(1, 7)]"
    by (simp only: w1[THEN conjunct2, THEN conjunct2] e append_Nil)
       (simp add: build_payload_def)
  have EB: "\<exists>w'. generate_item_v1 demo_env demo_settings 1 1 ''S/Characters'' ''A'' edited_world
             = Some (Done w')
          \<and> dirs w' = {''S/Characters/A/Iteration_1''}
          \<and> map (\<lambda>pl. (p_n_iter pl, p_seed pl)) (posts (trace w')) = [(1, 7)]"
    using w1[THEN conjunct1] B1 B2 by (intro exI[of _ w1] conjI)
  from r r1 s gall d EA EB show ?thesis by (intro conjI)
qed

text \<open>
  Claim C5, as it is worded, for \<open>v1.0/main.py\<close>: run with four images and three
  iterations, the descriptor of Jean Grey holds 4 and 3, not 1 and 1.
\<close>

theorem generate_json_files_v1_counts_counterexample:
  "files (snd (generate_json_files_v1 [[(''Name'', ''Jean Grey'')]] Character ''S'' (- 1) 4 3 ''out''
                 initial_world))
     ''out/S/Characters/Jean_Grey/prompt.json''
   = Some (JsonObject [(''Number of Images'', JInt 4), (''Number of Iterations'', JInt 3),
                       (''Seed'', JInt (- 1))])"
  by code_simp

text \<open>
  Claim C5, amended. For every parsed record, materialization takes the name of
  the item directory from the field \<open>Name\<close> of the record (\<open>Unnamed\<close> when it is
  absent) with every space replaced by an underscore, makes this directory under
  \<open><story>/Characters\<close> or \<open><story>/Scenes\<close>, and writes into it a \<open>prompt.json\<close>
  that has no key \<open>Name\<close>, has every other field of the record with its value (a
  field named like a control field apart), and has exactly the three control
  fields on top: \<open>Seed\<close> is the given default seed; \<open>Number of Images\<close> and
  \<open>Number of Iterations\<close> are 1 and 1 in \<open>main.py\<close>, and the numbers given for the
  run in \<open>v1.0/main.py\<close>.
\<close>

theorem materialize_descriptor:
  "item_name_of data
     = map (\<lambda>c. if c = CHR '' '' then CHR ''_'' else c)
         (case map_of data ''Name'' of None \<Rightarrow> ''Unnamed'' | Some name \<Rightarrow> name)
   \<and> path_join (path_join story (type_dir pt)) (item_name_of data)
       \<in> dirs (snd (generate_json_files (prompts @ [data]) pt story ds w))
   \<and> files (snd (generate_json_files (prompts @ [data]) pt story ds w))
       (path_join (path_join (path_join story (type_dir pt)) (item_name_of data)) ''prompt.json'')
     = Some (JsonObject (descriptor_of data 1 1 ds))
   \<and> path_join (path_join (path_join out story) (type_dir pt)) (item_name_of data)
       \<in> dirs (snd (generate_json_files_v1 (prompts @ [data]) pt story ds ni nit out w))
   \<and> files (snd (generate_json_files_v1 (prompts @ [data]) pt story ds ni nit out w))
       (path_join (path_join (path_join (path_join out story) (type_dir pt)) (item_name_of data))
          ''prompt.json'')
     = Some (JsonObject (descriptor_of data ni nit ds))
   \<and> map_of (descriptor_of data ni nit ds) ''Number of Images'' = Some (JInt ni)
   \<and> map_of (descriptor_of data ni nit ds) ''Number of Iterations'' = Some (JInt nit)
   \<and> map_of (descriptor_of data ni nit ds) ''Seed'' = Some (JInt ds)
   \<and> map_of (descriptor_of data ni nit ds) ''Name'' = None
   \<and> (\<forall>k. k \<notin> {''Name'', ''Number of Images'', ''Number of Iterations'', ''Seed''}
          \<longrightarrow> map_of (descriptor_of data ni nit ds) k = map_option JStr (map_of data k))
   \<and> fst ` set (descriptor_of data ni nit ds)
       = (fst ` set data - {''Name''}) \<union> {''Number of Images'', ''Number of Iterations'', ''Seed''}"
proof -
  have a: "item_name_of data
     = map (\<lambda>c. if c = CHR '' '' then CHR ''_'' else c)
         (case map_of data ''Name'' of None \<Rightarrow> ''Unnamed'' | Some name \<Rightarrow> name)"
    by (simp add: item_name_of_def dict_get_def)
  have b: "\<forall>k. k \<notin> {''Name'', ''Number of Images'', ''Number of Iterations'', ''Seed''}
          \<longrightarrow> map_of (descriptor_of data ni nit ds) k = map_option JStr (map_of data k)"
    by (simp add: map_of_descriptor_of)
  have c: "map_of (descriptor_of data ni nit ds) ''Number of Images'' = Some (JInt ni)"
    "map_of (descriptor_of data ni nit ds) ''Number of Iterations'' = Some (JInt nit)"
    "map_of (descriptor_of data ni nit ds) ''Seed'' = Some (JInt ds)"
    "map_of (descriptor_of data ni nit ds) ''Name'' = None"
    by (simp_all add: map_of_descriptor_of)
  from a b c generate_json_files_last[of story pt data prompts ds w]
    generate_json_files_v1_last[of out story pt data prompts ds ni nit w]
    keys_descriptor_of[of data ni nit ds]
  show ?thesis by (intro conjI) (elim conjE, assumption)+
qed

theorem materialize_descriptor_witness:
  "files (snd (generate_json_files
                 ([] @ [[(''Name'', ''Jean Grey''), (''Description'', ''A hero'')]])
                 Character ''S'' (- 1) initial_world))
     ''S/Characters/Jean_Grey/prompt.json''
   = Some (JsonObject [(''Description'', JStr ''A hero''), (''Number of Images'', JInt 1),
                       (''Number of Iterations'', JInt 1), (''Seed'', JInt (- 1))])
   \<and> ''S/Characters/Jean_Grey''
       \<in> dirs (snd (generate_json_files
                 ([] @ [[(''Name'', ''Jean Grey''), (''Description'', ''A hero'')]])
                 Character ''S'' (- 1) initial_world))
   \<and> ''Description'' \<notin> {''Name'', ''Number of Images'', ''Number of Iterations'', ''Seed''}
   \<and> map_of (descriptor_of [(''Name'', ''Jean Grey''), (''Description'', ''A hero'')] 1 1 (- 1))
        ''Description''
       = map_option JStr (map_of [(''Name'', ''Jean Grey''), (''Description'', ''A hero'')] ''Description'')"
proof -
  let ?data = "[(''Name'', ''Jean Grey''), (''Description'', ''A hero'')]"
  note T = materialize_descriptor[where data = ?data and story = "''S''" and pt = Character
             and prompts = "[]" and ds = "- 1" and w = initial_world and ni = 1 and nit = 1]
  have p: "path_join (path_join ''S'' (type_dir Character)) (item_name_of ?data)
             = ''S/Characters/Jean_Grey''"
    by code_simp
  have q: "path_join ''S/Characters/Jean_Grey'' ''prompt.json'' = ''S/Characters/Jean_Grey/prompt.json''"
    by code_simp
  have v: "descriptor_of ?data 1 1 (- 1)
             = [(''Description'', JStr ''A hero''), (''Number of Images'', JInt 1),
                (''Number of Iterations'', JInt 1), (''Seed'', JInt (- 1))]"
    by code_simp
  have n: "''Description'' \<notin> {''Name'', ''Number of Images'', ''Number of Iterations'', ''Seed''}"
    by simp
  have A: "files (snd (generate_json_files ([] @ [?data]) Character ''S'' (- 1) initial_world))
             ''S/Characters/Jean_Grey/prompt.json''
           = Some (JsonObject [(''Description'', JStr ''A hero''), (''Number of Images'', JInt 1),
                       (''Number of Iterations'', JInt 1), (''Seed'', JInt (- 1))])"
    using T[THEN conjunct2, THEN conjunct2, THEN conjunct1] by (simp only: p q v)
  have B: "''S/Characters/Jean_Grey''
       \<in> dirs (snd (generate_json_files ([] @ [?data]) Character ''S'' (- 1) initial_world))"
    using T[THEN conjunct2, THEN conjunct1] by (simp only: p)
  have C: "map_of (descriptor_of ?data 1 1 (- 1)) ''Description''
       = map_option JStr (map_of ?data ''Description'')"
    using T[THEN conjunct2, THEN conjunct2, THEN conjunct2, THEN conjunct2, THEN conjunct2,
            THEN conjunct2, THEN conjunct2, THEN conjunct2, THEN conjunct2, THEN conjunct1,
            THEN spec, THEN mp, OF n] .
  from A B n C show ?thesis by (intro conjI)
qed

end
